theory Spec2Isabelle
  imports Main "HOL-Library.Word"
begin

unbundle bit_operations_syntax

section \<open>Base64 encoding (\<open>LlavaNode::base64_encode\<close>, llava\_node.cpp lines 159--218)\<close>

text \<open>
  \<open>unsigned char\<close> is an 8-bit word; \<open>unsigned int pos\<close> is a 32-bit word whose
  arithmetic wraps; \<open>size_t in_len\<close> is the length of the buffer, which on the LP64
  platforms may exceed the range of \<open>unsigned int\<close>. A byte read from the buffer is
  promoted to \<open>int\<close> before masking and shifting; the promoted values are small and
  non-negative, so they are kept in a 32-bit word.
\<close>

type_synonym byte = "8 word"

text \<open>The two character tables \<open>base64_chars[2]\<close>, subscripted by \<open>url\<close>.\<close>

definition base64_chars :: "bool \<Rightarrow> string" where
  "base64_chars url =
     (if url then
        ''ABCDEFGHIJKLMNOPQRSTUVWXYZ'' @
        ''abcdefghijklmnopqrstuvwxyz'' @
        ''0123456789'' @
        ''-_''
      else
        ''ABCDEFGHIJKLMNOPQRSTUVWXYZ'' @
        ''abcdefghijklmnopqrstuvwxyz'' @
        ''0123456789'' @
        ''+/'')"

definition trailing_char :: "bool \<Rightarrow> char" where
  "trailing_char url = (if url then CHR ''.'' else CHR ''='')"

text \<open>\<open>bytes_to_encode[i]\<close> with the index computed in \<open>unsigned int\<close>, promoted to \<open>int\<close>.\<close>

definition byte_at :: "byte list \<Rightarrow> 32 word \<Rightarrow> 32 word" where
  "byte_at bytes_to_encode i = ucast (bytes_to_encode ! unat i)"

text \<open>\<open>base64_chars_[k]\<close>.\<close>

definition char_at :: "bool \<Rightarrow> 32 word \<Rightarrow> char" where
  "char_at url k = base64_chars url ! unat k"

text \<open>The characters pushed onto \<open>ret\<close> by one iteration of the loop body (lines 193--212).\<close>

definition base64_group :: "byte list \<Rightarrow> bool \<Rightarrow> 32 word \<Rightarrow> string" where
  "base64_group bytes_to_encode url pos =
     [char_at url (drop_bit 2 (byte_at bytes_to_encode (pos + 0) AND 0xfc))] @
     (if unat (pos + 1) < length bytes_to_encode then
        [char_at url (push_bit 4 (byte_at bytes_to_encode (pos + 0) AND 0x03) +
                      drop_bit 4 (byte_at bytes_to_encode (pos + 1) AND 0xf0))] @
        (if unat (pos + 2) < length bytes_to_encode then
           [char_at url (push_bit 2 (byte_at bytes_to_encode (pos + 1) AND 0x0f) +
                         drop_bit 6 (byte_at bytes_to_encode (pos + 2) AND 0xc0)),
            char_at url (byte_at bytes_to_encode (pos + 2) AND 0x3f)]
         else
           [char_at url (push_bit 2 (byte_at bytes_to_encode (pos + 1) AND 0x0f)),
            trailing_char url])
      else
        [char_at url (push_bit 4 (byte_at bytes_to_encode (pos + 0) AND 0x03)),
         trailing_char url,
         trailing_char url])"

text \<open>
  The loop \<open>while (pos < in_len) { ...; pos += 3; }\<close>. The comparison converts \<open>pos\<close>
  to \<open>size_t\<close>; the increment wraps at \<open>2 ^ 32\<close>. \<open>None\<close> is a loop that never exits.
\<close>

partial_function (option) base64_loop :: "byte list \<Rightarrow> bool \<Rightarrow> 32 word \<Rightarrow> string \<Rightarrow> string option" where
  "base64_loop bytes_to_encode url pos ret =
     (if unat pos < length bytes_to_encode then
        base64_loop bytes_to_encode url (pos + 3) (ret @ base64_group bytes_to_encode url pos)
      else Some ret)"

text \<open>
  \<open>ret.reserve(len_encoded)\<close> only sizes the buffer and is left out; \<open>pos\<close> starts at 0
  and \<open>ret\<close> empty.
\<close>

declare base64_loop.simps [code]

definition base64_encode :: "byte list \<Rightarrow> bool \<Rightarrow> string option" where
  "base64_encode bytes_to_encode url = base64_loop bytes_to_encode url 0 []"

section \<open>Messages and goals\<close>

text \<open>
  The message and engine types are declared outside this file; their fields are the ones
  the node reads and writes. A \<open>float\<close> probability is only ever copied, so it is kept as
  its 32-bit pattern. A token is a signed integer that is only copied.
\<close>

type_synonym float32 = "32 word"

text \<open>One alternate in \<open>completion_output::probs\<close>.\<close>

record token_prob =
  p_token :: int
  p_probability :: float32

record completion_output =
  c_token :: int
  c_probs :: "token_prob list"

text \<open>\<open>llama_msgs::msg::TokenProb\<close>, \<open>TokenProbArray\<close>, \<open>Response\<close>, \<open>PartialResponse\<close>.\<close>

record TokenProb =
  tp_token :: int
  tp_probability :: float32
  tp_token_text :: string

record TokenProbArray =
  tpa_data :: "TokenProb list"
  tpa_chosen_token :: int

record Response =
  r_text :: string
  r_tokens :: "int list"
  r_probs :: "TokenProbArray list"

record PartialResponse =
  pr_text :: string
  pr_token :: int
  pr_probs :: TokenProbArray

record Image =
  img_data :: "byte list"
  img_encoding :: string

text \<open>\<open>GenerateResponse::Goal\<close>; the sampling configuration message is a parameter \<open>'c\<close>.\<close>

record 'c Goal =
  g_prompt :: string
  g_image :: Image
  g_reset :: bool
  g_sampling_config :: 'c

text \<open>A freshly made \<open>GenerateResponse::Result\<close>: every field empty.\<close>

definition empty_result :: Response where
  "empty_result = \<lparr>r_text = [], r_tokens = [], r_probs = []\<rparr>"

section \<open>The transport's goal handles\<close>

text \<open>
  A goal handle is a shared object of the action server. Its states and the transitions
  that \<open>abort\<close>, \<open>succeed\<close> and \<open>canceled\<close> make are those of the action protocol: a terminal
  call is valid from \<open>EXECUTING\<close> or \<open>CANCELING\<close> (\<open>canceled\<close> from \<open>CANCELING\<close> only) and
  throws otherwise. \<open>UNKNOWN\<close> is the state of a handle that was never created.
\<close>

type_synonym handle = nat

datatype goal_status = UNKNOWN | ACCEPTED | EXECUTING | CANCELING | SUCCEEDED | CANCELED | ABORTED

record 'c goal_handle =
  gh_goal :: "'c Goal"
  gh_status :: goal_status

definition is_active :: "goal_status \<Rightarrow> bool" where
  "is_active st = (st = ACCEPTED \<or> st = EXECUTING \<or> st = CANCELING)"

definition is_canceling :: "goal_status \<Rightarrow> bool" where
  "is_canceling st = (st = CANCELING)"

datatype GoalResponse = REJECT | ACCEPT_AND_EXECUTE

datatype CancelResponse = CANCEL_REJECT | CANCEL_ACCEPT

section \<open>The node and its collaborators\<close>

text \<open>
  Every call the node makes on a collaborator (the engine, the image library, the goal
  handle) is recorded, in order, in a trace.
\<close>

datatype event =
    EvReset
  | EvCancel
  | EvToCvCopy string
  | EvImencode
  | EvBase64Encode
  | EvLoadImage string
  | EvFreeImage
  | EvGenerateResponse string bool
  | EvPublishFeedback handle PartialResponse
  | EvAbort handle Response
  | EvSucceed handle Response
  | EvCanceled handle Response

datatype error = NullGoalHandle | CvException | InvalidTransition | Base64NoReturn

text \<open>
  The state of \<open>LlavaNode\<close>: the member \<open>goal_handle_\<close> (a nullable shared pointer, here \<open>this_goal_handle\<close>), the
  goal handle objects it and the threads point to, the member \<open>gpt_params\<close> (the engine's
  sampling parameters, a parameter \<open>'p\<close>), the engine's cancel flag and the trace.
\<close>

record ('c, 'p) node =
  this_goal_handle :: "handle option"
  handles :: "handle \<Rightarrow> 'c goal_handle"
  gpt_params :: 'p
  engine_canceled :: bool
  trace :: "event list"

text \<open>
  What the collaborators answer during one run: the engine's \<open>detokenize\<close>,
  \<open>get_n_vocab\<close>, \<open>get_token_eos\<close> and \<open>load_image\<close>; the completion units the engine would
  generate for a prompt if it is not cancelled; the number of units after which a cancel
  request is dispatched, if any; \<open>gpt_params.update_sampling_params\<close>; the bytes that
  \<open>cv_bridge::toCvCopy\<close> followed by \<open>cv::imencode(".jpg")\<close> produce (\<open>None\<close> when
  \<open>toCvCopy\<close> throws); and \<open>rclcpp::ok()\<close>.
\<close>

record ('c, 'p) env =
  detokenize :: "int list \<Rightarrow> string"
  get_n_vocab :: int
  get_token_eos :: int
  load_image :: "string \<Rightarrow> bool"
  completions :: "string \<Rightarrow> completion_output list"
  cancel_after :: "nat option"
  update_sampling_params :: "'c \<Rightarrow> int \<Rightarrow> int \<Rightarrow> 'p \<Rightarrow> 'p"
  jpeg_bytes :: "Image \<Rightarrow> byte list option"
  rclcpp_ok :: bool

definition log :: "event list \<Rightarrow> ('c, 'p) node \<Rightarrow> ('c, 'p) node" where
  "log es s = s\<lparr>trace := trace s @ es\<rparr>"

definition set_status :: "handle \<Rightarrow> goal_status \<Rightarrow> ('c, 'p) node \<Rightarrow> ('c, 'p) node" where
  "set_status h st s = s\<lparr>handles := (handles s)(h := (handles s h)\<lparr>gh_status := st\<rparr>)\<rparr>"

definition status_of :: "('c, 'p) node \<Rightarrow> handle \<Rightarrow> goal_status" where
  "status_of s h = gh_status (handles s h)"

text \<open>\<open>goal_handle->abort(result)\<close>, \<open>succeed(result)\<close> and \<open>canceled(result)\<close>.\<close>

definition gh_abort :: "handle \<Rightarrow> Response \<Rightarrow> ('c, 'p) node \<Rightarrow> error + ('c, 'p) node" where
  "gh_abort h result s =
     (if status_of s h = EXECUTING \<or> status_of s h = CANCELING
      then Inr (log [EvAbort h result] (set_status h ABORTED s))
      else Inl InvalidTransition)"

definition gh_succeed :: "handle \<Rightarrow> Response \<Rightarrow> ('c, 'p) node \<Rightarrow> error + ('c, 'p) node" where
  "gh_succeed h result s =
     (if status_of s h = EXECUTING \<or> status_of s h = CANCELING
      then Inr (log [EvSucceed h result] (set_status h SUCCEEDED s))
      else Inl InvalidTransition)"

definition gh_canceled :: "handle \<Rightarrow> Response \<Rightarrow> ('c, 'p) node \<Rightarrow> error + ('c, 'p) node" where
  "gh_canceled h result s =
     (if status_of s h = CANCELING
      then Inr (log [EvCanceled h result] (set_status h CANCELED s))
      else Inl InvalidTransition)"

section \<open>The action callbacks (lines 55--80)\<close>

text \<open>\<open>LlavaNode::handle_goal\<close>: the decision and the node state after it.\<close>

definition handle_goal :: "'c Goal \<Rightarrow> ('c, 'p) node \<Rightarrow> GoalResponse \<times> ('c, 'p) node" where
  "handle_goal goal s =
     (case this_goal_handle s of
        None \<Rightarrow> (ACCEPT_AND_EXECUTE, s)
      | Some h \<Rightarrow>
          if is_active (status_of s h) then (REJECT, s) else (ACCEPT_AND_EXECUTE, s))"

text \<open>\<open>LlavaNode::handle_cancel\<close>: \<open>llava->cancel()\<close> raises the engine's cancel flag.\<close>

definition handle_cancel :: "handle \<Rightarrow> ('c, 'p) node \<Rightarrow> CancelResponse \<times> ('c, 'p) node" where
  "handle_cancel goal_handle s = (CANCEL_ACCEPT, log [EvCancel] (s\<lparr>engine_canceled := True\<rparr>))"

text \<open>
  \<open>LlavaNode::handle_accepted\<close> stores the handle; the detached thread it starts runs
  \<open>execute\<close> below.
\<close>

definition handle_accepted :: "handle \<Rightarrow> ('c, 'p) node \<Rightarrow> ('c, 'p) node" where
  "handle_accepted goal_handle s = s\<lparr>this_goal_handle := Some goal_handle\<rparr>"

section \<open>The streaming emitter (\<open>LlavaNode::send_text\<close>, lines 220--240)\<close>

text \<open>The loop over \<open>completion.probs\<close> that fills a \<open>TokenProb\<close> list (lines 136--142, 230--236).\<close>

fun probs_data :: "('c, 'p) env \<Rightarrow> token_prob list \<Rightarrow> TokenProb list \<Rightarrow> TokenProb list" where
  "probs_data env [] data = data"
| "probs_data env (prob # rest) data =
     probs_data env rest
       (data @ [\<lparr>tp_token = p_token prob, tp_probability = p_probability prob,
                 tp_token_text = detokenize env [p_token prob]\<rparr>])"

definition feedback_of :: "('c, 'p) env \<Rightarrow> completion_output \<Rightarrow> PartialResponse" where
  "feedback_of env completion =
     \<lparr>pr_text = detokenize env [c_token completion],
      pr_token = c_token completion,
      pr_probs = \<lparr>tpa_data = probs_data env (c_probs completion) [],
                  tpa_chosen_token = c_token completion\<rparr>\<rparr>"

definition send_text :: "('c, 'p) env \<Rightarrow> completion_output \<Rightarrow> ('c, 'p) node \<Rightarrow> ('c, 'p) node" where
  "send_text env completion s =
     (case this_goal_handle s of
        None \<Rightarrow> s
      | Some h \<Rightarrow> log [EvPublishFeedback h (feedback_of env completion)] s)"

section \<open>The engine's generation call\<close>

text \<open>
  A cancel request for goal \<open>h\<close> reaching the action server: the server calls
  \<open>handle_cancel\<close> and, on its \<open>ACCEPT\<close>, moves an accepted or executing goal to
  \<open>CANCELING\<close>.
\<close>

definition cancel_request :: "handle \<Rightarrow> ('c, 'p) node \<Rightarrow> ('c, 'p) node" where
  "cancel_request h s =
     (case handle_cancel h s of
        (CANCEL_ACCEPT, s1) \<Rightarrow>
          if status_of s1 h = ACCEPTED \<or> status_of s1 h = EXECUTING
          then set_status h CANCELING s1 else s1
      | (CANCEL_REJECT, s1) \<Rightarrow> s1)"

text \<open>
  Modelled from the spec: \<open>Llava::generate_response\<close>, whose code is not in this file.
  The engine produces a finite, ordered sequence of completion units and stops at its stop
  condition or at the cancellation signal, which it observes at a token boundary; it calls
  the callback once per unit, in generation order, synchronously within the call; a
  cancel request that arrived while no generation was running has no effect on the next
  one. \<open>n\<close> counts the units emitted so far; the cancel request of the run, if any, names
  the goal \<open>h\<close> of the running thread and is dispatched when \<open>n\<close> reaches \<open>cancel_after\<close>.
\<close>

fun generate_loop ::
  "('c, 'p) env \<Rightarrow> (completion_output \<Rightarrow> ('c, 'p) node \<Rightarrow> ('c, 'p) node) \<Rightarrow> handle \<Rightarrow>
   completion_output list \<Rightarrow> nat \<Rightarrow> ('c, 'p) node \<Rightarrow> completion_output list \<times> ('c, 'p) node" where
  "generate_loop env callback h [] n s =
     ([], if cancel_after env = Some n then cancel_request h s else s)"
| "generate_loop env callback h (unit # rest) n s =
     (let s1 = (if cancel_after env = Some n then cancel_request h s else s) in
      if engine_canceled s1 then ([], s1)
      else
        (case generate_loop env callback h rest (Suc n) (callback unit s1) of
           (out, s2) \<Rightarrow> (unit # out, s2)))"

definition generate_response ::
  "('c, 'p) env \<Rightarrow> string \<Rightarrow> bool \<Rightarrow> (completion_output \<Rightarrow> ('c, 'p) node \<Rightarrow> ('c, 'p) node) \<Rightarrow>
   handle \<Rightarrow> ('c, 'p) node \<Rightarrow> completion_output list \<times> ('c, 'p) node" where
  "generate_response env prompt add_probs callback h s =
     generate_loop env callback h (completions env prompt) 0
       (log [EvGenerateResponse prompt add_probs] (s\<lparr>engine_canceled := False\<rparr>))"

section \<open>The execution coordinator (\<open>LlavaNode::execute\<close>, lines 82--156)\<close>

text \<open>
  Modelled from the spec: the default of the parameter \<open>url\<close> of \<open>base64_encode\<close>, which is
  declared in the header and not in this file. The coordinator uses the standard
  alphabet with \<open>=\<close> padding and no URL-safe variant.
\<close>

definition base64_encode_default_url :: bool where
  "base64_encode_default_url = False"

text \<open>The loop over \<open>completion_results\<close> that fills the result (lines 131--144).\<close>

fun aggregate :: "('c, 'p) env \<Rightarrow> completion_output list \<Rightarrow> Response \<Rightarrow> Response" where
  "aggregate env [] result = result"
| "aggregate env (completion # rest) result =
     aggregate env rest
       (result\<lparr>r_text := r_text result @ detokenize env [c_token completion],
               r_tokens := r_tokens result @ [c_token completion],
               r_probs := r_probs result @
                 [\<lparr>tpa_data = probs_data env (c_probs completion) [], tpa_chosen_token = 0\<rparr>]\<rparr>)"

text \<open>
  Lines 146--152: when \<open>rclcpp::ok()\<close>, the goal that \<open>goal_handle_\<close> points to is resolved.
  The boolean says whether the assignment of line 154 is still to be made.
\<close>

definition resolve :: "('c, 'p) env \<Rightarrow> Response \<Rightarrow> ('c, 'p) node \<Rightarrow> error + bool \<times> ('c, 'p) node" where
  "resolve env result s =
     (if rclcpp_ok env then
        (case this_goal_handle s of
           None \<Rightarrow> Inl NullGoalHandle
         | Some h \<Rightarrow>
             (case (if is_canceling (status_of s h) then gh_canceled h result s
                    else gh_succeed h result s) of
                Inl e \<Rightarrow> Inl e
              | Inr s1 \<Rightarrow> Inr (True, s1)))
      else Inr (False, s))"

text \<open>
  Lines 85--152. \<open>goal_handle\<close> is the thread's own pointer, from which the goal is read;
  \<open>abort\<close>, \<open>is_canceling\<close>, \<open>canceled\<close> and \<open>succeed\<close> are called through the member
  \<open>goal_handle_\<close>. An exception of \<open>toCvCopy\<close> or of a goal handle, a null \<open>goal_handle_\<close>
  and a \<open>base64_encode\<close> that does not return are results \<open>Inl\<close>.
\<close>

definition execute_body :: "('c, 'p) env \<Rightarrow> handle \<Rightarrow> ('c, 'p) node \<Rightarrow> error + bool \<times> ('c, 'p) node" where
  "execute_body env goal_handle s =
     (let result = empty_result;
          goal = gh_goal (handles s goal_handle);
          prompt = g_prompt goal;
          image_msg = g_image goal;
          reset = g_reset goal;
          s1 = (if reset then log [EvReset] s else s);
          sampling_config = g_sampling_config goal;
          s2 = s1\<lparr>gpt_params :=
                 update_sampling_params env sampling_config (get_n_vocab env) (get_token_eos env)
                   (gpt_params s1)\<rparr>;
          generate = (\<lambda>s3.
            case generate_response env prompt True (send_text env) goal_handle s3 of
              (completion_results, s4) \<Rightarrow> resolve env (aggregate env completion_results result) s4)
      in
      if length (img_data image_msg) > 0 then
        (case jpeg_bytes env image_msg of
           None \<Rightarrow> Inl CvException
         | Some buf \<Rightarrow>
             (case base64_encode buf base64_encode_default_url of
                None \<Rightarrow> Inl Base64NoReturn
              | Some encoded_image \<Rightarrow>
                  (let s3 = log [EvToCvCopy (img_encoding image_msg), EvImencode, EvBase64Encode,
                                 EvLoadImage encoded_image] s2
                   in
                   if \<not> load_image env encoded_image then
                     (case this_goal_handle s3 of
                        None \<Rightarrow> Inl NullGoalHandle
                      | Some h \<Rightarrow>
                          (case gh_abort h result s3 of
                             Inl e \<Rightarrow> Inl e
                           | Inr s4 \<Rightarrow> Inr (False, s4)))
                   else generate s3)))
      else generate (log [EvFreeImage] s2))"

text \<open>Line 154, \<open>this->goal_handle_ = nullptr\<close>, and the whole of \<open>execute\<close>.\<close>

definition clear_goal_handle :: "('c, 'p) node \<Rightarrow> ('c, 'p) node" where
  "clear_goal_handle s = s\<lparr>this_goal_handle := None\<rparr>"

definition execute :: "('c, 'p) env \<Rightarrow> handle \<Rightarrow> ('c, 'p) node \<Rightarrow> error + ('c, 'p) node" where
  "execute env goal_handle s =
     (case execute_body env goal_handle s of
        Inl e \<Rightarrow> Inl e
      | Inr (True, s1) \<Rightarrow> Inr (clear_goal_handle s1)
      | Inr (False, s1) \<Rightarrow> Inr s1)"

section \<open>Standard base64, as the specification words it\<close>

text \<open>
  The 64-symbol standard alphabet, and the encoding of a buffer in 3-byte groups: each
  group gives four symbols by 6-bit slicing (the high six bits of byte 0; the low two bits
  of byte 0 with the high four of byte 1; the low four bits of byte 1 with the high two of
  byte 2; the low six bits of byte 2); a final group of one byte gives two symbols and two
  padding characters, a final group of two bytes three symbols and one padding character.
\<close>

definition std_alphabet :: string where
  "std_alphabet = ''ABCDEFGHIJKLMNOPQRSTUVWXYZabcdefghijklmnopqrstuvwxyz0123456789+/''"

fun spec_base64 :: "string \<Rightarrow> char \<Rightarrow> byte list \<Rightarrow> string" where
  "spec_base64 al pad [] = []"
| "spec_base64 al pad [a] =
     [al ! (unat a div 4), al ! (unat a mod 4 * 16), pad, pad]"
| "spec_base64 al pad [a, b] =
     [al ! (unat a div 4), al ! (unat a mod 4 * 16 + unat b div 16),
      al ! (unat b mod 16 * 4), pad]"
| "spec_base64 al pad (a # b # c # rest) =
     [al ! (unat a div 4), al ! (unat a mod 4 * 16 + unat b div 16),
      al ! (unat b mod 16 * 4 + unat c div 64), al ! (unat c mod 64)] @
     spec_base64 al pad rest"

text \<open>
  The standard decoder: four characters at a time, each looked up in the alphabet;
  \<open>=\<close> is accepted only as padding at the end of the last group.
\<close>

fun index_of :: "'a \<Rightarrow> 'a list \<Rightarrow> nat option" where
  "index_of x [] = None"
| "index_of x (y # ys) = (if x = y then Some 0 else map_option Suc (index_of x ys))"

definition sym_value :: "char \<Rightarrow> nat option" where
  "sym_value c = index_of c std_alphabet"

definition byte0 :: "nat \<Rightarrow> nat \<Rightarrow> byte" where
  "byte0 s0 s1 = of_nat (s0 * 4 + s1 div 16)"

definition byte1 :: "nat \<Rightarrow> nat \<Rightarrow> byte" where
  "byte1 s1 s2 = of_nat (s1 mod 16 * 16 + s2 div 4)"

definition byte2 :: "nat \<Rightarrow> nat \<Rightarrow> byte" where
  "byte2 s2 s3 = of_nat (s2 mod 4 * 64 + s3)"

fun std_base64_decode :: "string \<Rightarrow> byte list option" where
  "std_base64_decode [] = Some []"
| "std_base64_decode (c0 # c1 # c2 # c3 # rest) =
     (case (sym_value c0, sym_value c1) of
        (Some s0, Some s1) \<Rightarrow>
          if c2 = CHR ''='' then
            (if c3 = CHR ''='' \<and> rest = [] then Some [byte0 s0 s1] else None)
          else
            (case sym_value c2 of
               None \<Rightarrow> None
             | Some s2 \<Rightarrow>
                 if c3 = CHR ''='' then
                   (if rest = [] then
                      Some [byte0 s0 s1, byte1 s1 s2]
                    else None)
                 else
                   (case sym_value c3 of
                      None \<Rightarrow> None
                    | Some s3 \<Rightarrow>
                        map_option
                          (\<lambda>bs. [byte0 s0 s1, byte1 s1 s2, byte2 s2 s3] @ bs)
                          (std_base64_decode rest)))
      | _ \<Rightarrow> None)"
| "std_base64_decode _ = None"

text \<open>The URL-safe alphabet: the standard one with \<open>-\<close> and \<open>_\<close> as symbols 62 and 63.\<close>

definition url_alphabet :: string where
  "url_alphabet = ''ABCDEFGHIJKLMNOPQRSTUVWXYZabcdefghijklmnopqrstuvwxyz0123456789-_''"

text \<open>The URL variant differs from the standard one in three characters.\<close>

definition url_char :: "char \<Rightarrow> char" where
  "url_char c = (if c = CHR ''+'' then CHR ''-'' else if c = CHR ''/'' then CHR ''_''
                 else if c = CHR ''='' then CHR ''.'' else c)"


section \<open>What the specification says of a run\<close>

text \<open>
  A run of \<open>execute\<close> starts in the state \<open>handle_accepted\<close> leaves: the member points to
  the thread's handle and the goal is executing, or already canceling when a cancel
  request was accepted before the thread started.
\<close>

definition accepted :: "('c, 'p) node \<Rightarrow> handle \<Rightarrow> bool" where
  "accepted s h =
     (this_goal_handle s = Some h \<and> (status_of s h = EXECUTING \<or> status_of s h = CANCELING))"

text \<open>The image step succeeds: the codec returns bytes and the engine loads their encoding.\<close>

definition image_loads :: "('c, 'p) env \<Rightarrow> Image \<Rightarrow> bool" where
  "image_loads env image_msg =
     (case jpeg_bytes env image_msg of
        None \<Rightarrow> False
      | Some buf \<Rightarrow>
          (case base64_encode buf False of None \<Rightarrow> False | Some enc \<Rightarrow> load_image env enc))"

text \<open>The image step fails at \<open>load_image\<close>: the codec returns bytes and the engine refuses them.\<close>

definition image_load_fails :: "('c, 'p) env \<Rightarrow> Image \<Rightarrow> bool" where
  "image_load_fails env image_msg =
     (case jpeg_bytes env image_msg of
        None \<Rightarrow> False
      | Some buf \<Rightarrow>
          (case base64_encode buf False of None \<Rightarrow> False | Some enc \<Rightarrow> \<not> load_image env enc))"

text \<open>
  One alternate with its token detokenized on its own; the feedback message of a unit;
  the aggregated result of a sequence of units.
\<close>

definition alternate_of :: "('c, 'p) env \<Rightarrow> token_prob \<Rightarrow> TokenProb" where
  "alternate_of env prob =
     \<lparr>tp_token = p_token prob, tp_probability = p_probability prob,
      tp_token_text = detokenize env [p_token prob]\<rparr>"

definition spec_feedback :: "('c, 'p) env \<Rightarrow> completion_output \<Rightarrow> PartialResponse" where
  "spec_feedback env unit =
     \<lparr>pr_text = detokenize env [c_token unit],
      pr_token = c_token unit,
      pr_probs = \<lparr>tpa_data = map (alternate_of env) (c_probs unit),
                  tpa_chosen_token = c_token unit\<rparr>\<rparr>"

definition spec_result :: "('c, 'p) env \<Rightarrow> completion_output list \<Rightarrow> Response" where
  "spec_result env units =
     \<lparr>r_text = concat (map (\<lambda>unit. detokenize env [c_token unit]) units),
      r_tokens = map c_token units,
      r_probs = map (\<lambda>unit. \<lparr>tpa_data = map (alternate_of env) (c_probs unit),
                                tpa_chosen_token = 0\<rparr>) units\<rparr>"

text \<open>The status of a goal after the action server accepted a cancel request for it.\<close>

definition after_cancel :: "goal_status \<Rightarrow> goal_status" where
  "after_cancel st = (if st = ACCEPTED \<or> st = EXECUTING then CANCELING else st)"

text \<open>
  Whether the cancel request of the run arrives during generation, and the units the
  engine emits: the first \<open>n\<close> when the request arrives after \<open>n\<close> units, all of them
  otherwise.
\<close>

definition cancel_arrives :: "('c, 'p) env \<Rightarrow> string \<Rightarrow> bool" where
  "cancel_arrives env prompt =
     (case cancel_after env of
        None \<Rightarrow> False
      | Some n \<Rightarrow> n \<le> length (completions env prompt))"

definition emitted_units :: "('c, 'p) env \<Rightarrow> string \<Rightarrow> completion_output list" where
  "emitted_units env prompt =
     (case cancel_after env of
        None \<Rightarrow> completions env prompt
      | Some n \<Rightarrow>
          if n \<le> length (completions env prompt) then take n (completions env prompt)
          else completions env prompt)"

text \<open>
  The events of a run before generation or abort: the optional reset, then either
  \<open>free_image\<close> or the codec calls and \<open>load_image\<close> on the encoded image.
\<close>

definition image_events :: "('c, 'p) env \<Rightarrow> Image \<Rightarrow> event list" where
  "image_events env image_msg =
     (if img_data image_msg = [] then [EvFreeImage]
      else
        (case jpeg_bytes env image_msg of
           None \<Rightarrow> []
         | Some buf \<Rightarrow>
             (case base64_encode buf False of
                None \<Rightarrow> []
              | Some enc \<Rightarrow>
                  [EvToCvCopy (img_encoding image_msg), EvImencode, EvBase64Encode,
                   EvLoadImage enc])))"

definition prelude_events :: "('c, 'p) env \<Rightarrow> 'c Goal \<Rightarrow> event list" where
  "prelude_events env goal =
     (if g_reset goal then [EvReset] else []) @ image_events env (g_image goal)"

text \<open>The sampling parameters after \<open>update_sampling_params\<close> with the engine's current values.\<close>

definition updated_params :: "('c, 'p) env \<Rightarrow> 'c Goal \<Rightarrow> 'p \<Rightarrow> 'p" where
  "updated_params env goal params =
     update_sampling_params env (g_sampling_config goal) (get_n_vocab env) (get_token_eos env)
       params"

definition fb_events :: "('c, 'p) env \<Rightarrow> handle \<Rightarrow> completion_output list \<Rightarrow> event list" where
  "fb_events env h units = map (\<lambda>unit. EvPublishFeedback h (spec_feedback env unit)) units"

text \<open>
  The goal is canceling when generation returns: it already was, or the cancel request
  arrived during generation. The events of the generation call.
\<close>

definition canceling_at_end :: "('c, 'p) env \<Rightarrow> ('c, 'p) node \<Rightarrow> handle \<Rightarrow> bool" where
  "canceling_at_end env s h =
     (status_of s h = CANCELING \<or> cancel_arrives env (g_prompt (gh_goal (handles s h))))"

definition generation_events :: "('c, 'p) env \<Rightarrow> handle \<Rightarrow> string \<Rightarrow> event list" where
  "generation_events env h prompt =
     [EvGenerateResponse prompt True] @ fb_events env h (emitted_units env prompt) @
     (if cancel_arrives env prompt then [EvCancel] else [])"

text \<open>The events a run added to the trace, and views of a list of events.\<close>

definition new_events :: "('c, 'p) node \<Rightarrow> ('c, 'p) node \<Rightarrow> event list" where
  "new_events s s' = drop (length (trace s)) (trace s')"

fun feedback_events :: "event list \<Rightarrow> (handle \<times> PartialResponse) list" where
  "feedback_events [] = []"
| "feedback_events (EvPublishFeedback h fb # es) = (h, fb) # feedback_events es"
| "feedback_events (e # es) = feedback_events es"

fun is_resolution :: "event \<Rightarrow> bool" where
  "is_resolution (EvAbort h r) = True"
| "is_resolution (EvSucceed h r) = True"
| "is_resolution (EvCanceled h r) = True"
| "is_resolution e = False"

fun is_codec_event :: "event \<Rightarrow> bool" where
  "is_codec_event (EvToCvCopy enc) = True"
| "is_codec_event EvImencode = True"
| "is_codec_event EvBase64Encode = True"
| "is_codec_event e = False"

fun is_generation :: "event \<Rightarrow> bool" where
  "is_generation (EvGenerateResponse prompt add_probs) = True"
| "is_generation e = False"

fun is_load_image :: "event \<Rightarrow> bool" where
  "is_load_image (EvLoadImage enc) = True"
| "is_load_image e = False"

section \<open>The node at start-up and the dispatch of a goal request\<close>

text \<open>
  The constructor (lines 36--53) sets \<open>goal_handle_\<close> to null; no goal handle exists yet.
\<close>

definition new_node :: "'c Goal \<Rightarrow> 'p \<Rightarrow> ('c, 'p) node" where
  "new_node g0 params =
     \<lparr>this_goal_handle = None,
      handles = (\<lambda>h. \<lparr>gh_goal = g0, gh_status = UNKNOWN\<rparr>),
      gpt_params = params,
      engine_canceled = False,
      trace = []\<rparr>"

text \<open>
  A goal request reaching the action server: the server calls \<open>handle_goal\<close>; on
  \<open>ACCEPT_AND_EXECUTE\<close> it creates the goal handle \<open>h\<close>, executing, and calls
  \<open>handle_accepted\<close>, which starts the thread of \<open>execute\<close>.
\<close>

definition goal_request :: "handle \<Rightarrow> 'c Goal \<Rightarrow> ('c, 'p) node \<Rightarrow> GoalResponse \<times> ('c, 'p) node" where
  "goal_request h goal s =
     (case handle_goal goal s of
        (REJECT, s1) \<Rightarrow> (REJECT, s1)
      | (ACCEPT_AND_EXECUTE, s1) \<Rightarrow>
          (ACCEPT_AND_EXECUTE,
           handle_accepted h
             (s1\<lparr>handles := (handles s1)(h := \<lparr>gh_goal = goal, gh_status = EXECUTING\<rparr>)\<rparr>)))"

section \<open>A concrete engine, goal and node\<close>

text \<open>
  An engine that generates two units for every prompt, whose sampling parameters are the
  pair of vocabulary size and end-of-sequence token, and an image library that returns
  the two bytes \<open>Ma\<close>. Whether the engine loads an image, when a cancel request arrives
  and whether the process is still running are parameters.
\<close>

definition demo_units :: "completion_output list" where
  "demo_units =
     [\<lparr>c_token = 5, c_probs = [\<lparr>p_token = 5, p_probability = 1\<rparr>, \<lparr>p_token = 7, p_probability = 0\<rparr>]\<rparr>,
      \<lparr>c_token = 7, c_probs = []\<rparr>]"

definition demo_env :: "bool \<Rightarrow> nat option \<Rightarrow> bool \<Rightarrow> (unit, int \<times> int) env" where
  "demo_env loads cancel ok =
     \<lparr>detokenize = (\<lambda>ts. concat (map (\<lambda>t. if t = 5 then ''a'' else ''b'') ts)),
      get_n_vocab = 32000,
      get_token_eos = 2,
      load_image = (\<lambda>enc. loads),
      completions = (\<lambda>prompt. demo_units),
      cancel_after = cancel,
      update_sampling_params = (\<lambda>config n_vocab eos params. (n_vocab, eos)),
      jpeg_bytes = (\<lambda>image_msg. Some [77, 97]),
      rclcpp_ok = ok\<rparr>"

definition demo_goal :: "bool \<Rightarrow> unit Goal" where
  "demo_goal with_image =
     \<lparr>g_prompt = ''describe'',
      g_image = \<lparr>img_data = (if with_image then [1, 2, 3] else []), img_encoding = ''rgb8''\<rparr>,
      g_reset = True,
      g_sampling_config = ()\<rparr>"

text \<open>The node after start-up and the acceptance of a first goal, with handle 1.\<close>

definition demo_node :: "bool \<Rightarrow> (unit, int \<times> int) node" where
  "demo_node with_image =
     snd (goal_request 1 (demo_goal with_image) (new_node (demo_goal False) (0, 0)))"

text \<open>
  The node after the interleaving of three goal requests with the thread of goal 1: the
  thread has resolved goal 1 (line 151) when the request for goal 2 is dispatched, it then
  clears the member (line 154), and the request for goal 3 is dispatched. Goal 2 carries
  an image or not.
\<close>

definition race_node :: "bool \<Rightarrow> (unit, int \<times> int) node" where
  "race_node with_image =
     (case execute_body (demo_env True None True) 1 (demo_node False) of
        Inl e \<Rightarrow> demo_node False
      | Inr (clear_pending, s2) \<Rightarrow>
          snd (goal_request 3 (demo_goal False)
                 (clear_goal_handle (snd (goal_request 2 (demo_goal with_image) s2)))))"

section \<open>Properties of \<open>base64_encode\<close>\<close>

subsection \<open>The masks and shifts are the 6-bit slices\<close>

lemma and_low_nat:
  "(n::nat) AND 3 = n mod 4" "(n::nat) AND 15 = n mod 16" "(n::nat) AND 63 = n mod 64"
  using take_bit_eq_mask [of 2 n] take_bit_eq_mask [of 4 n] take_bit_eq_mask [of 6 n]
  by (simp_all add: take_bit_eq_mod mask_eq_exp_minus_1)

lemma drop_and_high_nat:
  assumes "(n::nat) < 256"
  shows "drop_bit 2 (n AND 252) = n div 4"
    and "drop_bit 4 (n AND 240) = n div 16"
    and "drop_bit 6 (n AND 192) = n div 64"
proof -
  have "drop_bit 2 (n AND 252) = drop_bit 2 n AND drop_bit 2 (252::nat)"
    by (simp only: drop_bit_and)
  also have "\<dots> = (n div 4) mod 64"
    by (simp add: drop_bit_eq_div and_low_nat)
  finally show "drop_bit 2 (n AND 252) = n div 4" using assms by simp
  have "drop_bit 4 (n AND 240) = drop_bit 4 n AND drop_bit 4 (240::nat)"
    by (simp only: drop_bit_and)
  also have "\<dots> = (n div 16) mod 16"
    by (simp add: drop_bit_eq_div and_low_nat)
  finally show "drop_bit 4 (n AND 240) = n div 16" using assms by simp
  have "drop_bit 6 (n AND 192) = drop_bit 6 n AND drop_bit 6 (192::nat)"
    by (simp only: drop_bit_and)
  also have "\<dots> = (n div 64) mod 4"
    by (simp add: drop_bit_eq_div and_low_nat)
  finally show "drop_bit 6 (n AND 192) = n div 64" using assms by simp
qed

lemma unat_promote: "unat (ucast (a::8 word) :: 32 word) = unat a"
  by (simp add: unsigned_ucast_eq take_bit_eq_mod) (use unsigned_less [of a, where ?'a = nat] in simp)

lemma unat_byte_lt: "unat (a::8 word) < 256"
  using unsigned_less [of a, where ?'a = nat] by simp

lemma sextet0: "unat (drop_bit 2 ((ucast (a::8 word) :: 32 word) AND 0xfc)) = unat a div 4"
  using drop_and_high_nat(1) [OF unat_byte_lt, of a]
  by (simp add: unat_drop_bit_eq unsigned_and_eq unat_promote)

lemma sextet1_pad: "unat (push_bit 4 ((ucast (a::8 word) :: 32 word) AND 0x03)) = unat a mod 4 * 16"
  using unat_byte_lt [of a]
  by (simp add: push_bit_eq_mult unat_word_ariths unsigned_and_eq unat_promote and_low_nat)

lemma sextet1: "unat (push_bit 4 ((ucast (a::8 word) :: 32 word) AND 0x03) + drop_bit 4 ((ucast (b::8 word) :: 32 word) AND 0xf0))
   = unat a mod 4 * 16 + unat b div 16"
proof -
  have d: "unat (drop_bit 4 ((ucast b :: 32 word) AND 0xf0)) = unat b div 16"
    using drop_and_high_nat(2) [OF unat_byte_lt, of b]
    by (simp add: unat_drop_bit_eq unsigned_and_eq unat_promote)
  show ?thesis
    unfolding unat_word_ariths(1) sextet1_pad d
    using unat_byte_lt [of b] by simp
qed

lemma sextet2_pad: "unat (push_bit 2 ((ucast (b::8 word) :: 32 word) AND 0x0f)) = unat b mod 16 * 4"
  using unat_byte_lt [of b]
  by (simp add: push_bit_eq_mult unat_word_ariths unsigned_and_eq unat_promote and_low_nat)

lemma sextet2: "unat (push_bit 2 ((ucast (b::8 word) :: 32 word) AND 0x0f) + drop_bit 6 ((ucast (c::8 word) :: 32 word) AND 0xc0))
   = unat b mod 16 * 4 + unat c div 64"
proof -
  have d: "unat (drop_bit 6 ((ucast c :: 32 word) AND 0xc0)) = unat c div 64"
    using drop_and_high_nat(3) [OF unat_byte_lt, of c]
    by (simp add: unat_drop_bit_eq unsigned_and_eq unat_promote)
  show ?thesis
    unfolding unat_word_ariths(1) sextet2_pad d
    using unat_byte_lt [of c] by simp
qed

lemma sextet3: "unat ((ucast (c::8 word) :: 32 word) AND 0x3f) = unat c mod 64"
  by (simp add: unsigned_and_eq unat_promote and_low_nat)


subsection \<open>The loop computes the grouped encoding while the counter cannot wrap\<close>

lemma unat_pos_offsets:
  fixes pos :: "32 word"
  assumes "unat pos + 3 < 2 ^ 32"
  shows "unat (pos + 0) = unat pos" "unat (pos + 1) = unat pos + 1"
    "unat (pos + 2) = unat pos + 2" "unat (pos + 3) = unat pos + 3"
  using assms by (simp_all add: unat_word_ariths)

lemma base64_group_nat:
  "base64_group bs url pos =
     [base64_chars url ! (unat (bs ! unat (pos + 0)) div 4)] @
     (if unat (pos + 1) < length bs then
        [base64_chars url ! (unat (bs ! unat (pos + 0)) mod 4 * 16 + unat (bs ! unat (pos + 1)) div 16)] @
        (if unat (pos + 2) < length bs then
           [base64_chars url ! (unat (bs ! unat (pos + 1)) mod 16 * 4 + unat (bs ! unat (pos + 2)) div 64),
            base64_chars url ! (unat (bs ! unat (pos + 2)) mod 64)]
         else
           [base64_chars url ! (unat (bs ! unat (pos + 1)) mod 16 * 4), trailing_char url])
      else
        [base64_chars url ! (unat (bs ! unat (pos + 0)) mod 4 * 16),
         trailing_char url, trailing_char url])"
  unfolding base64_group_def byte_at_def char_at_def
    sextet0 sextet1 sextet1_pad sextet2 sextet2_pad sextet3 ..

lemma base64_group_spec:
  assumes lt: "unat pos < length bs" and nowrap: "unat pos + 3 < 2 ^ 32"
  shows "spec_base64 (base64_chars url) (trailing_char url) (drop (unat pos) bs) =
         base64_group bs url pos @
         spec_base64 (base64_chars url) (trailing_char url) (drop (unat pos + 3) bs)"
proof -
  let ?n = "unat pos"
  note off = unat_pos_offsets [OF nowrap]
  have d0: "drop ?n bs = bs ! ?n # drop (?n + 1) bs"
    using lt by (simp add: Cons_nth_drop_Suc)
  show ?thesis
  proof (cases "?n + 1 < length bs")
    case False
    then have "drop (?n + 1) bs = []" "drop (?n + 3) bs = []" by simp_all
    with False d0 show ?thesis
      by (simp add: base64_group_nat off)
  next
    case one: True
    then have d1: "drop (?n + 1) bs = bs ! (?n + 1) # drop (?n + 2) bs"
      using Cons_nth_drop_Suc [of "?n + 1" bs] by simp
    show ?thesis
    proof (cases "?n + 2 < length bs")
      case False
      then have "drop (?n + 2) bs = []" "drop (?n + 3) bs = []" by simp_all
      with False one d0 d1 show ?thesis
        by (simp add: base64_group_nat off)
    next
      case two: True
      then have d2: "drop (?n + 2) bs = bs ! (?n + 2) # drop (?n + 3) bs"
        using Cons_nth_drop_Suc [of "?n + 2" bs] by (simp add: numeral_3_eq_3)
      from one two d0 d1 d2 show ?thesis
        by (simp add: base64_group_nat off)
    qed
  qed
qed

lemma base64_loop_spec:
  assumes len: "length bs < 2 ^ 32" and dvd: "3 dvd unat pos"
  shows "base64_loop bs url pos ret =
         Some (ret @ spec_base64 (base64_chars url) (trailing_char url) (drop (unat pos) bs))"
  using dvd
proof (induction "length bs - unat pos" arbitrary: pos ret rule: less_induct)
  case less
  show ?case
  proof (cases "unat pos < length bs")
    case False
    then show ?thesis by (subst base64_loop.simps) simp
  next
    case True
    from True len have "unat pos < 4294967295" by simp
    with less.prems have nowrap: "unat pos + 3 < 2 ^ 32"
      by (auto elim!: dvdE)
    have step: "unat (pos + 3) = unat pos + 3"
      by (rule unat_pos_offsets(4) [OF nowrap])
    have "base64_loop bs url pos ret =
          base64_loop bs url (pos + 3) (ret @ base64_group bs url pos)"
      using True by (subst base64_loop.simps) simp
    also have "\<dots> = Some ((ret @ base64_group bs url pos) @
        spec_base64 (base64_chars url) (trailing_char url) (drop (unat (pos + 3)) bs))"
      using True less.prems by (intro less.hyps) (simp_all add: step)
    finally show ?thesis
      by (simp add: step base64_group_spec [OF True nowrap])
  qed
qed

lemma base64_encode_spec:
  "length bs < 2 ^ 32 \<Longrightarrow>
   base64_encode bs url = Some (spec_base64 (base64_chars url) (trailing_char url) bs)"
  using base64_loop_spec [of bs 0 url "[]"] by (simp add: base64_encode_def)

subsection \<open>A buffer that the counter cannot span\<close>

lemma base64_loop_Some_length:
  assumes "base64_loop bs url pos ret = Some y"
  shows "length bs < 2 ^ 32"
proof (rule base64_loop.raw_induct [where P = "\<lambda>bs url pos ret y. length bs < 2 ^ 32", OF _ assms])
  fix loop :: "byte list \<Rightarrow> bool \<Rightarrow> 32 word \<Rightarrow> string \<Rightarrow> string option"
    and bs url pos ret y
  assume IH: "\<And>bs url pos ret y. loop bs url pos ret = Some y \<Longrightarrow> length bs < 2 ^ 32"
    and eq: "(if unat pos < length bs
              then loop bs url (pos + 3) (ret @ base64_group bs url pos)
              else Some ret) = Some y"
  show "length bs < 2 ^ 32"
  proof (cases "unat pos < length bs")
    case True
    with eq have "loop bs url (pos + 3) (ret @ base64_group bs url pos) = Some y" by simp
    then show ?thesis by (rule IH)
  next
    case False
    then show ?thesis
      using unsigned_less [of pos, where ?'a = nat] by simp
  qed
qed

lemma base64_encode_diverges: "2 ^ 32 \<le> length bs \<Longrightarrow> base64_encode bs url = None"
  using base64_loop_Some_length [of bs url 0 "[]"]
  by (cases "base64_encode bs url") (auto simp: base64_encode_def)

subsection \<open>Decoding\<close>

lemma std_alphabet_eq: "base64_chars False = std_alphabet"
  by (simp add: base64_chars_def std_alphabet_def)

lemma index_of_nth: "distinct xs \<Longrightarrow> k < length xs \<Longrightarrow> index_of (xs ! k) xs = Some k"
proof (induction xs arbitrary: k)
  case Nil
  then show ?case by simp
next
  case (Cons y ys)
  show ?case
  proof (cases k)
    case 0
    then show ?thesis by simp
  next
    case (Suc j)
    with Cons.prems have "ys ! j \<in> set ys" "y \<notin> set ys" by simp_all
    then have "ys ! j \<noteq> y" by blast
    with Suc Cons show ?thesis by simp
  qed
qed

lemma std_chars_distinct: "distinct std_alphabet"
  by (simp add: std_alphabet_def)

lemma std_chars_length: "length (base64_chars url) = 64"
  by (simp add: base64_chars_def)

lemma std_chars_no_pad: "CHR ''='' \<notin> set std_alphabet"
  by (simp add: std_alphabet_def)

lemma std_alphabet_length: "length std_alphabet = 64"
  by (simp add: std_alphabet_def)

lemma sym_value_nth: "k < 64 \<Longrightarrow> sym_value (std_alphabet ! k) = Some k"
  by (simp add: sym_value_def index_of_nth std_chars_distinct std_alphabet_length)

lemma std_nth_not_pad: "k < 64 \<Longrightarrow> std_alphabet ! k \<noteq> CHR ''=''"
  using std_chars_no_pad nth_mem [of k std_alphabet]
  by (metis std_alphabet_length)

lemma sextet_bounds:
  "unat (a::byte) div 4 < 64" "unat a mod 4 * 16 < 64"
  "unat a mod 4 * 16 + unat (b::byte) div 16 < 64"
  "unat b mod 16 * 4 < 64" "unat b mod 16 * 4 + unat (c::byte) div 64 < 64"
  "unat c mod 64 < 64"
  using unat_byte_lt [of a] unat_byte_lt [of b] unat_byte_lt [of c] by simp_all

lemma split_div_nat: "x < m \<Longrightarrow> (q * m + x) div m = (q::nat)"
  by simp

lemma split_mod_nat: "x < m \<Longrightarrow> (q * m + x) mod m = (x::nat)"
  by simp

lemma byte_div_bounds:
  "unat (b::byte) div 16 < 16" "unat b div 64 < 4" "unat b div 4 < 64"
  using unat_byte_lt [of b] by (simp_all add: less_mult_imp_div_less)

lemma regroup_bytes:
  "byte0 (unat (a::byte) div 4) (unat a mod 4 * 16 + unat (b::byte) div 16) = a"
  "byte0 (unat a div 4) (unat a mod 4 * 16) = a"
  "byte1 (unat a mod 4 * 16 + unat b div 16) (unat b mod 16 * 4 + unat (c::byte) div 64) = b"
  "byte1 (unat a mod 4 * 16 + unat b div 16) (unat b mod 16 * 4) = b"
  "byte2 (unat b mod 16 * 4 + unat c div 64) (unat c mod 64) = c"
proof -
  have a1: "(unat a mod 4 * 16 + unat b div 16) div 16 = unat a mod 4"
    by (rule split_div_nat) (rule byte_div_bounds)
  have a2: "(unat a mod 4 * 16 + unat b div 16) mod 16 = unat b div 16"
    by (rule split_mod_nat) (rule byte_div_bounds)
  have b1: "(unat b mod 16 * 4 + unat c div 64) div 4 = unat b mod 16"
    by (rule split_div_nat) (rule byte_div_bounds)
  have b2: "(unat b mod 16 * 4 + unat c div 64) mod 4 = unat c div 64"
    by (rule split_mod_nat) (rule byte_div_bounds)
  show "byte0 (unat a div 4) (unat a mod 4 * 16 + unat b div 16) = a"
    unfolding byte0_def a1 by simp
  show "byte0 (unat a div 4) (unat a mod 4 * 16) = a"
    unfolding byte0_def by simp
  show "byte1 (unat a mod 4 * 16 + unat b div 16) (unat b mod 16 * 4 + unat c div 64) = b"
    unfolding byte1_def a2 b1 by simp
  show "byte1 (unat a mod 4 * 16 + unat b div 16) (unat b mod 16 * 4) = b"
    unfolding byte1_def a2 by simp
  show "byte2 (unat b mod 16 * 4 + unat c div 64) (unat c mod 64) = c"
    unfolding byte2_def b2 by simp
qed

lemma decode_spec_base64:
  "std_base64_decode (spec_base64 std_alphabet (CHR ''='') bs) = Some bs"
proof (induction std_alphabet "CHR ''=''" bs rule: spec_base64.induct)
  case 1
  show ?case by simp
next
  case (2 a)
  show ?case by (simp add: sym_value_nth sextet_bounds regroup_bytes)
next
  case (3 a b)
  show ?case by (simp add: sym_value_nth sextet_bounds std_nth_not_pad regroup_bytes)
next
  case (4 a b c rest)
  then show ?case by (simp add: sym_value_nth sextet_bounds std_nth_not_pad regroup_bytes)
qed

lemma length_spec_base64: "length (spec_base64 al pad bs) = (length bs + 2) div 3 * 4"
proof (induction al pad bs rule: spec_base64.induct)
  case (4 al pad a b c rest)
  have "(length (a # b # c # rest) + 2) div 3 = Suc ((length rest + 2) div 3)"
    by simp
  with 4 show ?case by simp
qed simp_all

lemma count_pad_general:
  assumes "\<And>k. k < 64 \<Longrightarrow> al ! k \<noteq> pad"
  shows "count_list (spec_base64 al pad bs) pad = (3 - length bs mod 3) mod 3"
  using assms
proof (induction al pad bs rule: spec_base64.induct)
  case (1 al pad)
  show ?case by simp
next
  case (2 al pad a)
  then show ?case by (simp add: sextet_bounds)
next
  case (3 al pad a b)
  then show ?case by (simp add: sextet_bounds)
next
  case (4 al pad a b c rest)
  have "length (a # b # c # rest) = length rest + 3" by simp
  then have "length (a # b # c # rest) mod 3 = length rest mod 3"
    by (simp only: mod_add_self2)
  moreover have "count_list (spec_base64 al pad (a # b # c # rest)) pad =
      count_list (spec_base64 al pad rest) pad"
    using 4(2) by (simp add: sextet_bounds)
  ultimately show ?case using 4 by simp
qed

lemma count_pad_spec_base64:
  "count_list (spec_base64 std_alphabet (CHR ''='') bs) (CHR ''='') = (3 - length bs mod 3) mod 3"
  by (rule count_pad_general) (rule std_nth_not_pad)

subsection \<open>The URL variant\<close>

lemma url_chars_map: "base64_chars True = map url_char (base64_chars False)"
  by (simp add: base64_chars_def url_char_def)

lemma url_chars_nth: "k < 64 \<Longrightarrow> base64_chars True ! k = url_char (base64_chars False ! k)"
  by (simp add: url_chars_map std_chars_length)

lemma base64_encode_std:
  "length bs < 2 ^ 32 \<Longrightarrow>
   base64_encode bs False = Some (spec_base64 std_alphabet (CHR ''='') bs)"
  using base64_encode_spec [of bs False] by (simp add: std_alphabet_eq trailing_char_def)

lemma url_alphabet_eq: "base64_chars True = url_alphabet"
  by (simp add: base64_chars_def url_alphabet_def)

lemma url_alphabet_std: "url_alphabet = take 62 std_alphabet @ ''-_''"
  by (simp add: url_alphabet_def std_alphabet_def)

lemma base64_encode_url_spec:
  "length bs < 2 ^ 32 \<Longrightarrow>
   base64_encode bs True = Some (spec_base64 url_alphabet (CHR ''.'') bs)"
  using base64_encode_spec [of bs True] by (simp add: url_alphabet_eq trailing_char_def)

lemma url_alphabet_length: "length url_alphabet = 64"
  by (simp add: url_alphabet_def)

lemma url_alphabet_no_pad: "CHR ''='' \<notin> set url_alphabet"
  by (simp add: url_alphabet_def)

lemma url_alphabet_no_eq: "k < 64 \<Longrightarrow> url_alphabet ! k \<noteq> CHR ''=''"
  using url_alphabet_no_pad nth_mem [of k url_alphabet]
  by (metis url_alphabet_length)

lemma spec_base64_no_char:
  assumes "\<And>k. k < 64 \<Longrightarrow> c \<noteq> al ! k" "c \<noteq> pad"
  shows "c \<notin> set (spec_base64 al pad bs)"
  using assms
  by (induction al pad bs rule: spec_base64.induct) (simp_all add: sextet_bounds)

lemma spec_base64_url:
  "spec_base64 (base64_chars True) (trailing_char True) bs =
   map url_char (spec_base64 (base64_chars False) (trailing_char False) bs)"
proof (induction "base64_chars True" "trailing_char True" bs rule: spec_base64.induct)
  case (4 a b c rest)
  then show ?case by (simp add: url_chars_nth sextet_bounds)
qed (simp_all add: url_chars_nth sextet_bounds, simp_all add: trailing_char_def url_char_def)

lemma base64_encode_url:
  "base64_encode bs True = map_option (map url_char) (base64_encode bs False)"
proof (cases "length bs < 2 ^ 32")
  case True
  then show ?thesis by (simp add: base64_encode_spec spec_base64_url)
next
  case False
  then show ?thesis by (simp add: base64_encode_diverges)
qed


section \<open>Properties of the callbacks and of \<open>execute\<close>\<close>

subsection \<open>The loops over alternates and over completion units\<close>

lemma probs_data_eq: "probs_data env ps data = data @ map (alternate_of env) ps"
  by (induction ps arbitrary: data) (simp_all add: alternate_of_def)

lemma feedback_of_spec: "feedback_of env unit = spec_feedback env unit"
  by (simp add: feedback_of_def spec_feedback_def probs_data_eq)

lemma aggregate_eq:
  "aggregate env units result =
     \<lparr>r_text = r_text result @ r_text (spec_result env units),
      r_tokens = r_tokens result @ r_tokens (spec_result env units),
      r_probs = r_probs result @ r_probs (spec_result env units)\<rparr>"
  by (induction units arbitrary: result) (simp_all add: spec_result_def probs_data_eq)

lemma aggregate_empty: "aggregate env units empty_result = spec_result env units"
  by (simp add: aggregate_eq empty_result_def spec_result_def)

subsection \<open>The callback and the cancel request\<close>

lemma send_text_Some:
  "this_goal_handle s = Some h0 \<Longrightarrow>
   send_text env unit s = s\<lparr>trace := trace s @ [EvPublishFeedback h0 (spec_feedback env unit)]\<rparr>"
  by (simp add: send_text_def log_def feedback_of_spec)

lemma status_update_same:
  "gh_status (handles s h) = st \<Longrightarrow>
   (handles s)(h := (handles s h)\<lparr>gh_status := st\<rparr>) = handles s"
proof -
  assume a: "gh_status (handles s h) = st"
  have "(handles s h)\<lparr>gh_status := st\<rparr> = handles s h"
    using a by (cases "handles s h") simp
  then show ?thesis by simp
qed

lemma cancel_request_eq:
  "status_of s h = EXECUTING \<or> status_of s h = CANCELING \<Longrightarrow>
   cancel_request h s =
     s\<lparr>engine_canceled := True,
       handles := (handles s)(h := (handles s h)\<lparr>gh_status := CANCELING\<rparr>),
       trace := trace s @ [EvCancel]\<rparr>"
  by (auto simp: cancel_request_def handle_cancel_def log_def set_status_def status_of_def
      status_update_same)

lemma handle_goal_decision:
  "handle_goal goal s =
     (if (\<exists>h. this_goal_handle s = Some h \<and> is_active (status_of s h)) then REJECT
      else ACCEPT_AND_EXECUTE, s)"
  by (auto simp: handle_goal_def split: option.splits)

lemma goal_request_accepted:
  "goal_request h goal s = (ACCEPT_AND_EXECUTE, s') \<Longrightarrow>
   accepted s' h \<and> gh_goal (handles s' h) = goal"
  by (auto simp: goal_request_def handle_goal_def handle_accepted_def accepted_def status_of_def
      split: option.splits if_splits)

lemma goal_request_rejected:
  "this_goal_handle s = Some h0 \<Longrightarrow> is_active (status_of s h0) \<Longrightarrow>
   goal_request h goal s = (REJECT, s)"
  by (simp add: goal_request_def handle_goal_def)

subsection \<open>Generation: units out, feedback and cancel in the trace\<close>

lemma generate_loop_send_text:
  assumes "this_goal_handle s = Some h0" "\<not> engine_canceled s"
    and "status_of s h = EXECUTING \<or> status_of s h = CANCELING"
    and "\<And>c. cancel_after env = Some c \<Longrightarrow> n \<le> c"
  shows "generate_loop env (send_text env) h units n s =
     (case cancel_after env of
        None \<Rightarrow> (units, s\<lparr>trace := trace s @ fb_events env h0 units\<rparr>)
      | Some c \<Rightarrow>
          if c \<le> n + length units then
            (take (c - n) units,
             s\<lparr>engine_canceled := True,
               handles := (handles s)(h := (handles s h)\<lparr>gh_status := CANCELING\<rparr>),
               trace := trace s @ fb_events env h0 (take (c - n) units) @ [EvCancel]\<rparr>)
          else (units, s\<lparr>trace := trace s @ fb_events env h0 units\<rparr>))"
  using assms
proof (induction units arbitrary: n s)
  case Nil
  then show ?case
    by (auto simp: cancel_request_eq fb_events_def split: option.splits)
next
  case (Cons unit rest)
  show ?case
  proof (cases "cancel_after env = Some n")
    case True
    with Cons.prems show ?thesis
      by (simp add: cancel_request_eq fb_events_def)
  next
    case False
    let ?s1 = "send_text env unit s"
    have s1: "?s1 = s\<lparr>trace := trace s @ [EvPublishFeedback h0 (spec_feedback env unit)]\<rparr>"
      using Cons.prems(1) by (rule send_text_Some)
    have later: "\<And>c. cancel_after env = Some c \<Longrightarrow> Suc n \<le> c"
      using False Cons.prems(4) by (metis le_neq_implies_less Suc_leI)
    have IH: "generate_loop env (send_text env) h rest (Suc n) ?s1 =
     (case cancel_after env of
        None \<Rightarrow> (rest, ?s1\<lparr>trace := trace ?s1 @ fb_events env h0 rest\<rparr>)
      | Some c \<Rightarrow>
          if c \<le> Suc n + length rest then
            (take (c - Suc n) rest,
             ?s1\<lparr>engine_canceled := True,
               handles := (handles ?s1)(h := (handles ?s1 h)\<lparr>gh_status := CANCELING\<rparr>),
               trace := trace ?s1 @ fb_events env h0 (take (c - Suc n) rest) @ [EvCancel]\<rparr>)
          else (rest, ?s1\<lparr>trace := trace ?s1 @ fb_events env h0 rest\<rparr>))"
      using Cons.prems later by (intro Cons.IH) (simp_all add: s1 status_of_def)
    show ?thesis
    proof (cases "cancel_after env")
      case None
      with Cons.prems(2) show ?thesis
        using IH by (simp add: s1 fb_events_def)
    next
      case (Some c)
      with later have "Suc n \<le> c" by simp
      then have "c - n = Suc (c - Suc n)" by arith
      then have tk: "take (c - n) (unit # rest) = unit # take (c - Suc n) rest"
        by (simp only: take_Suc_Cons)
      from Some False Cons.prems(2) show ?thesis
        using IH by (simp add: s1 fb_events_def tk)
    qed
  qed
qed

lemma generate_response_eq:
  assumes "accepted s h"
  shows "generate_response env prompt True (send_text env) h s =
     (emitted_units env prompt,
      if cancel_arrives env prompt then
        s\<lparr>engine_canceled := True,
          handles := (handles s)(h := (handles s h)\<lparr>gh_status := CANCELING\<rparr>),
          trace := trace s @ [EvGenerateResponse prompt True] @
                   fb_events env h (emitted_units env prompt) @ [EvCancel]\<rparr>
      else
        s\<lparr>engine_canceled := False,
          trace := trace s @ [EvGenerateResponse prompt True] @
                   fb_events env h (emitted_units env prompt)\<rparr>)"
proof -
  let ?s0 = "log [EvGenerateResponse prompt True] (s\<lparr>engine_canceled := False\<rparr>)"
  have "generate_loop env (send_text env) h (completions env prompt) 0 ?s0 =
     (case cancel_after env of
        None \<Rightarrow> (completions env prompt, ?s0\<lparr>trace := trace ?s0 @ fb_events env h (completions env prompt)\<rparr>)
      | Some c \<Rightarrow>
          if c \<le> 0 + length (completions env prompt) then
            (take (c - 0) (completions env prompt),
             ?s0\<lparr>engine_canceled := True,
               handles := (handles ?s0)(h := (handles ?s0 h)\<lparr>gh_status := CANCELING\<rparr>),
               trace := trace ?s0 @ fb_events env h (take (c - 0) (completions env prompt)) @ [EvCancel]\<rparr>)
          else (completions env prompt, ?s0\<lparr>trace := trace ?s0 @ fb_events env h (completions env prompt)\<rparr>))"
    using assms by (intro generate_loop_send_text) (simp_all add: accepted_def log_def status_of_def)
  then show ?thesis
    by (simp add: generate_response_def emitted_units_def cancel_arrives_def log_def
        split: option.splits)
qed

subsection \<open>The final state of a run\<close>

lemma execute_abort:
  assumes acc: "accepted s h"
    and img: "img_data (g_image (gh_goal (handles s h))) \<noteq> []"
    and fails: "image_load_fails env (g_image (gh_goal (handles s h)))"
  shows "execute env h s =
     Inr (s\<lparr>handles := (handles s)(h := (handles s h)\<lparr>gh_status := ABORTED\<rparr>),
            gpt_params := updated_params env (gh_goal (handles s h)) (gpt_params s),
            trace := trace s @ prelude_events env (gh_goal (handles s h)) @
                     [EvAbort h empty_result]\<rparr>)"
  using assms
  by (auto simp: execute_def execute_body_def Let_def accepted_def image_load_fails_def
      base64_encode_default_url_def log_def gh_abort_def set_status_def status_of_def
      prelude_events_def image_events_def updated_params_def
      split: option.splits)

text \<open>After an abort the member still points to the goal, which is no longer active.\<close>

lemma goal_accepted_after_abort:
  assumes "accepted s h"
    and "img_data (g_image (gh_goal (handles s h))) \<noteq> []"
    and "image_load_fails env (g_image (gh_goal (handles s h)))"
  shows "\<exists>s'. execute env h s = Inr s' \<and> this_goal_handle s' = Some h \<and>
           fst (handle_goal goal s') = ACCEPT_AND_EXECUTE"
  unfolding execute_abort [OF assms]
  using assms(1) by (simp add: accepted_def handle_goal_def status_of_def is_active_def)

lemma resolve_eq:
  assumes "this_goal_handle s = Some h" "status_of s h = EXECUTING \<or> status_of s h = CANCELING"
  shows "resolve env result s =
     (if rclcpp_ok env then
        Inr (True,
          if status_of s h = CANCELING then
            s\<lparr>handles := (handles s)(h := (handles s h)\<lparr>gh_status := CANCELED\<rparr>),
              trace := trace s @ [EvCanceled h result]\<rparr>
          else
            s\<lparr>handles := (handles s)(h := (handles s h)\<lparr>gh_status := SUCCEEDED\<rparr>),
              trace := trace s @ [EvSucceed h result]\<rparr>)
      else Inr (False, s))"
  using assms
  by (auto simp: resolve_def is_canceling_def gh_canceled_def gh_succeed_def log_def
      set_status_def status_of_def)

lemma execute_body_generate:
  assumes acc: "accepted s h"
    and img: "img_data (g_image (gh_goal (handles s h))) = [] \<or>
              image_loads env (g_image (gh_goal (handles s h)))"
    and ok: "rclcpp_ok env"
  shows "execute_body env h s =
     Inr (True,
          s\<lparr>handles := (handles s)(h := (handles s h)
               \<lparr>gh_status := (if canceling_at_end env s h then CANCELED else SUCCEEDED)\<rparr>),
            gpt_params := updated_params env (gh_goal (handles s h)) (gpt_params s),
            engine_canceled := cancel_arrives env (g_prompt (gh_goal (handles s h))),
            trace := trace s @ prelude_events env (gh_goal (handles s h)) @
                     generation_events env h (g_prompt (gh_goal (handles s h))) @
                     [(if canceling_at_end env s h then EvCanceled else EvSucceed) h
                        (spec_result env (emitted_units env (g_prompt (gh_goal (handles s h)))))]\<rparr>)"
proof -
  let ?goal = "gh_goal (handles s h)"
  let ?s3 = "s\<lparr>gpt_params := updated_params env ?goal (gpt_params s),
                trace := trace s @ prelude_events env ?goal\<rparr>"
  have acc3: "accepted ?s3 h"
    using acc by (simp add: accepted_def status_of_def)
  have body: "execute_body env h s =
    (case generate_response env (g_prompt ?goal) True (send_text env) h ?s3 of
       (completion_results, s4) \<Rightarrow>
          resolve env (aggregate env completion_results empty_result) s4)"
    using img
    by (auto simp: execute_body_def Let_def image_loads_def base64_encode_default_url_def
        log_def prelude_events_def image_events_def updated_params_def
        split: option.splits)
  show ?thesis
    unfolding body generate_response_eq [OF acc3] aggregate_empty
    using acc ok
    by (auto simp: resolve_eq accepted_def status_of_def canceling_at_end_def
        generation_events_def)
qed

lemma execute_generate:
  assumes acc: "accepted s h"
    and img: "img_data (g_image (gh_goal (handles s h))) = [] \<or>
              image_loads env (g_image (gh_goal (handles s h)))"
    and ok: "rclcpp_ok env"
  shows "execute env h s =
     Inr (s\<lparr>this_goal_handle := None,
            handles := (handles s)(h := (handles s h)
               \<lparr>gh_status := (if canceling_at_end env s h then CANCELED else SUCCEEDED)\<rparr>),
            gpt_params := updated_params env (gh_goal (handles s h)) (gpt_params s),
            engine_canceled := cancel_arrives env (g_prompt (gh_goal (handles s h))),
            trace := trace s @ prelude_events env (gh_goal (handles s h)) @
                     generation_events env h (g_prompt (gh_goal (handles s h))) @
                     [(if canceling_at_end env s h then EvCanceled else EvSucceed) h
                        (spec_result env (emitted_units env (g_prompt (gh_goal (handles s h)))))]\<rparr>)"
  unfolding execute_def execute_body_generate [OF assms]
  by (simp add: clear_goal_handle_def)

lemma execute_generate_shutdown:
  assumes acc: "accepted s h"
    and img: "img_data (g_image (gh_goal (handles s h))) = [] \<or>
              image_loads env (g_image (gh_goal (handles s h)))"
    and ok: "\<not> rclcpp_ok env"
  shows "execute env h s =
     Inr (s\<lparr>handles := (handles s)(h := (handles s h)
               \<lparr>gh_status := (if canceling_at_end env s h then CANCELING else EXECUTING)\<rparr>),
            gpt_params := updated_params env (gh_goal (handles s h)) (gpt_params s),
            engine_canceled := cancel_arrives env (g_prompt (gh_goal (handles s h))),
            trace := trace s @ prelude_events env (gh_goal (handles s h)) @
                     generation_events env h (g_prompt (gh_goal (handles s h)))\<rparr>)"
proof -
  let ?goal = "gh_goal (handles s h)"
  let ?s3 = "s\<lparr>gpt_params := updated_params env ?goal (gpt_params s),
                trace := trace s @ prelude_events env ?goal\<rparr>"
  have acc3: "accepted ?s3 h"
    using acc by (simp add: accepted_def status_of_def)
  have body: "execute_body env h s =
    (case generate_response env (g_prompt ?goal) True (send_text env) h ?s3 of
       (completion_results, s4) \<Rightarrow>
          resolve env (aggregate env completion_results empty_result) s4)"
    using img
    by (auto simp: execute_body_def Let_def image_loads_def base64_encode_default_url_def
        log_def prelude_events_def image_events_def updated_params_def
        split: option.splits)
  show ?thesis
    unfolding execute_def body generate_response_eq [OF acc3] aggregate_empty
    using acc ok
    by (auto simp: resolve_def accepted_def status_of_def canceling_at_end_def
        generation_events_def status_update_same)
qed

subsection \<open>A run while the member names any resolvable goal\<close>

text \<open>
  The thread reads its goal from its own handle \<open>h\<close>, but it publishes, aborts and
  resolves through the member, which names \<open>m\<close>.
\<close>

lemma cancel_request_any:
  "cancel_request h s =
     s\<lparr>engine_canceled := True,
       handles := (handles s)(h := (handles s h)\<lparr>gh_status := after_cancel (status_of s h)\<rparr>),
       trace := trace s @ [EvCancel]\<rparr>"
  by (auto simp: cancel_request_def handle_cancel_def log_def set_status_def status_of_def
      after_cancel_def status_update_same)

lemma generate_loop_member:
  assumes "this_goal_handle s = Some m" "\<not> engine_canceled s"
    and "\<And>c. cancel_after env = Some c \<Longrightarrow> n \<le> c"
  shows "generate_loop env (send_text env) h units n s =
     (case cancel_after env of
        None \<Rightarrow> (units, s\<lparr>trace := trace s @ fb_events env m units\<rparr>)
      | Some c \<Rightarrow>
          if c \<le> n + length units then
            (take (c - n) units,
             s\<lparr>engine_canceled := True,
               handles := (handles s)(h := (handles s h)\<lparr>gh_status := after_cancel (status_of s h)\<rparr>),
               trace := trace s @ fb_events env m (take (c - n) units) @ [EvCancel]\<rparr>)
          else (units, s\<lparr>trace := trace s @ fb_events env m units\<rparr>))"
  using assms
proof (induction units arbitrary: n s)
  case Nil
  then show ?case
    by (auto simp: cancel_request_any fb_events_def split: option.splits)
next
  case (Cons unit rest)
  show ?case
  proof (cases "cancel_after env = Some n")
    case True
    with Cons.prems show ?thesis
      by (simp add: cancel_request_any fb_events_def)
  next
    case False
    let ?s1 = "send_text env unit s"
    have s1: "?s1 = s\<lparr>trace := trace s @ [EvPublishFeedback m (spec_feedback env unit)]\<rparr>"
      using Cons.prems(1) by (rule send_text_Some)
    have later: "\<And>c. cancel_after env = Some c \<Longrightarrow> Suc n \<le> c"
      using False Cons.prems(3) by (metis le_neq_implies_less Suc_leI)
    have IH: "generate_loop env (send_text env) h rest (Suc n) ?s1 =
     (case cancel_after env of
        None \<Rightarrow> (rest, ?s1\<lparr>trace := trace ?s1 @ fb_events env m rest\<rparr>)
      | Some c \<Rightarrow>
          if c \<le> Suc n + length rest then
            (take (c - Suc n) rest,
             ?s1\<lparr>engine_canceled := True,
               handles := (handles ?s1)(h := (handles ?s1 h)\<lparr>gh_status := after_cancel (status_of ?s1 h)\<rparr>),
               trace := trace ?s1 @ fb_events env m (take (c - Suc n) rest) @ [EvCancel]\<rparr>)
          else (rest, ?s1\<lparr>trace := trace ?s1 @ fb_events env m rest\<rparr>))"
      using Cons.prems later by (intro Cons.IH) (simp_all add: s1)
    show ?thesis
    proof (cases "cancel_after env")
      case None
      with Cons.prems(2) show ?thesis
        using IH by (simp add: s1 fb_events_def)
    next
      case (Some c)
      with later have "Suc n \<le> c" by simp
      then have "c - n = Suc (c - Suc n)" by arith
      then have tk: "take (c - n) (unit # rest) = unit # take (c - Suc n) rest"
        by (simp only: take_Suc_Cons)
      from Some False Cons.prems(2) show ?thesis
        using IH by (simp add: s1 fb_events_def tk status_of_def)
    qed
  qed
qed

lemma generate_response_member:
  assumes "this_goal_handle s = Some m"
  shows "generate_response env prompt True (send_text env) h s =
     (emitted_units env prompt,
      if cancel_arrives env prompt then
        s\<lparr>engine_canceled := True,
          handles := (handles s)(h := (handles s h)\<lparr>gh_status := after_cancel (status_of s h)\<rparr>),
          trace := trace s @ [EvGenerateResponse prompt True] @
                   fb_events env m (emitted_units env prompt) @ [EvCancel]\<rparr>
      else
        s\<lparr>engine_canceled := False,
          trace := trace s @ [EvGenerateResponse prompt True] @
                   fb_events env m (emitted_units env prompt)\<rparr>)"
proof -
  let ?s0 = "log [EvGenerateResponse prompt True] (s\<lparr>engine_canceled := False\<rparr>)"
  have "generate_loop env (send_text env) h (completions env prompt) 0 ?s0 =
     (case cancel_after env of
        None \<Rightarrow> (completions env prompt, ?s0\<lparr>trace := trace ?s0 @ fb_events env m (completions env prompt)\<rparr>)
      | Some c \<Rightarrow>
          if c \<le> 0 + length (completions env prompt) then
            (take (c - 0) (completions env prompt),
             ?s0\<lparr>engine_canceled := True,
               handles := (handles ?s0)(h := (handles ?s0 h)\<lparr>gh_status := after_cancel (status_of ?s0 h)\<rparr>),
               trace := trace ?s0 @ fb_events env m (take (c - 0) (completions env prompt)) @ [EvCancel]\<rparr>)
          else (completions env prompt, ?s0\<lparr>trace := trace ?s0 @ fb_events env m (completions env prompt)\<rparr>))"
    using assms by (intro generate_loop_member) (simp_all add: log_def)
  then show ?thesis
    by (simp add: generate_response_def emitted_units_def cancel_arrives_def log_def status_of_def
        split: option.splits)
qed

lemma execute_abort_member:
  assumes acc: "accepted s m"
    and img: "img_data (g_image (gh_goal (handles s h))) \<noteq> []"
    and fails: "image_load_fails env (g_image (gh_goal (handles s h)))"
  shows "execute env h s =
     Inr (s\<lparr>handles := (handles s)(m := (handles s m)\<lparr>gh_status := ABORTED\<rparr>),
            gpt_params := updated_params env (gh_goal (handles s h)) (gpt_params s),
            trace := trace s @ prelude_events env (gh_goal (handles s h)) @
                     [EvAbort m empty_result]\<rparr>)"
  using assms
  by (auto simp: execute_def execute_body_def Let_def accepted_def image_load_fails_def
      base64_encode_default_url_def log_def gh_abort_def set_status_def status_of_def
      prelude_events_def image_events_def updated_params_def
      split: option.splits)

lemma execute_generate_other:
  assumes acc: "accepted s m" and neq: "m \<noteq> h"
    and img: "img_data (g_image (gh_goal (handles s h))) = [] \<or>
              image_loads env (g_image (gh_goal (handles s h)))"
  shows "\<exists>s'. execute env h s = Inr s'
      \<and> new_events s s' =
          prelude_events env (gh_goal (handles s h)) @
          generation_events env m (g_prompt (gh_goal (handles s h))) @
          (if rclcpp_ok env
           then [(if status_of s m = CANCELING then EvCanceled else EvSucceed) m
                   (spec_result env (emitted_units env (g_prompt (gh_goal (handles s h)))))]
           else [])
      \<and> status_of s' h =
          (if cancel_arrives env (g_prompt (gh_goal (handles s h)))
           then after_cancel (status_of s h) else status_of s h)
      \<and> status_of s' m =
          (if rclcpp_ok env
           then (if status_of s m = CANCELING then CANCELED else SUCCEEDED)
           else status_of s m)"
proof -
  let ?goal = "gh_goal (handles s h)"
  let ?s3 = "s\<lparr>gpt_params := updated_params env ?goal (gpt_params s),
                trace := trace s @ prelude_events env ?goal\<rparr>"
  have m3: "this_goal_handle ?s3 = Some m"
    using acc by (simp add: accepted_def)
  have body: "execute_body env h s =
    (case generate_response env (g_prompt ?goal) True (send_text env) h ?s3 of
       (completion_results, s4) \<Rightarrow>
          resolve env (aggregate env completion_results empty_result) s4)"
    using img
    by (auto simp: execute_body_def Let_def image_loads_def base64_encode_default_url_def
        log_def prelude_events_def image_events_def updated_params_def
        split: option.splits)
  show ?thesis
    unfolding execute_def body generate_response_member [OF m3] aggregate_empty
    using acc neq
    by (auto simp: resolve_def is_canceling_def gh_canceled_def gh_succeed_def log_def
        set_status_def accepted_def status_of_def generation_events_def clear_goal_handle_def
        new_events_def)
qed

subsection \<open>Views of the trace\<close>

lemma new_events_append [simp]: "trace s' = trace s @ es \<Longrightarrow> new_events s s' = es"
  by (simp add: new_events_def)

lemma feedback_events_append [simp]:
  "feedback_events (es @ es') = feedback_events es @ feedback_events es'"
  by (induction es rule: feedback_events.induct) simp_all

lemma feedback_events_fb [simp]:
  "feedback_events (fb_events env h units) = map (\<lambda>unit. (h, spec_feedback env unit)) units"
  by (induction units) (simp_all add: fb_events_def)

lemma feedback_events_prelude [simp]: "feedback_events (prelude_events env goal) = []"
  by (simp add: prelude_events_def image_events_def split: option.splits)

lemma filter_fb_events [simp]:
  "filter is_resolution (fb_events env h units) = []"
  "filter is_codec_event (fb_events env h units) = []"
  "filter is_generation (fb_events env h units) = []"
  "filter is_load_image (fb_events env h units) = []"
  by (induction units) (simp_all add: fb_events_def)

lemma filter_prelude [simp]:
  "filter is_resolution (prelude_events env goal) = []"
  "filter is_generation (prelude_events env goal) = []"
  by (simp_all add: prelude_events_def image_events_def split: option.splits)

lemma filter_load_image_generation [simp]:
  "filter is_load_image (generation_events env h prompt) = []"
  by (simp add: generation_events_def)

lemma image_events_std:
  assumes "img_data image_msg \<noteq> []" "jpeg_bytes env image_msg = Some buf" "length buf < 2 ^ 32"
  shows "image_events env image_msg =
           [EvToCvCopy (img_encoding image_msg), EvImencode, EvBase64Encode,
            EvLoadImage (spec_base64 std_alphabet (CHR ''='') buf)]"
  using assms by (simp add: image_events_def base64_encode_std)

lemma filter_load_image_prelude_std:
  assumes "img_data (g_image goal) \<noteq> []" "jpeg_bytes env (g_image goal) = Some buf"
    "length buf < 2 ^ 32"
  shows "filter is_load_image (prelude_events env goal) =
           [EvLoadImage (spec_base64 std_alphabet (CHR ''='') buf)]"
  using assms by (simp add: prelude_events_def image_events_std)

lemma execute_loads_std_image:
  assumes acc: "accepted s m"
    and img: "img_data (g_image (gh_goal (handles s h))) \<noteq> []"
    and jpg: "jpeg_bytes env (g_image (gh_goal (handles s h))) = Some buf"
    and len: "length buf < 2 ^ 32"
  shows "\<exists>s'. execute env h s = Inr s' \<and>
           filter is_load_image (new_events s s') =
             [EvLoadImage (spec_base64 std_alphabet (CHR ''='') buf)]"
proof -
  note enc = base64_encode_std [OF len]
  note pre = filter_load_image_prelude_std [OF img jpg len]
  show ?thesis
  proof (cases "load_image env (spec_base64 std_alphabet (CHR ''='') buf)")
    case False
    with jpg enc have fails: "image_load_fails env (g_image (gh_goal (handles s h)))"
      by (simp add: image_load_fails_def)
    show ?thesis
      unfolding execute_abort_member [OF acc img fails] by (simp add: pre)
  next
    case True
    with jpg enc have loads: "img_data (g_image (gh_goal (handles s h))) = [] \<or>
        image_loads env (g_image (gh_goal (handles s h)))"
      by (simp add: image_loads_def)
    show ?thesis
    proof (cases "m = h")
      case same: True
      show ?thesis
      proof (cases "rclcpp_ok env")
        case True
        show ?thesis
          unfolding execute_generate [OF acc [unfolded same] loads True] by (simp add: pre)
      next
        case False
        show ?thesis
          unfolding execute_generate_shutdown [OF acc [unfolded same] loads False]
          by (simp add: pre)
      qed
    next
      case False
      from execute_generate_other [OF acc False loads]
      show ?thesis by (auto simp: pre)
    qed
  qed
qed

text \<open>
  A run whose image fails to load, started while the member names its own goal: one
  resolution, the abort with the empty result, and no generation.
\<close>

lemma abort_when_member_names_own_goal:
  assumes "accepted s h"
    and "img_data (g_image (gh_goal (handles s h))) \<noteq> []"
    and "image_load_fails env (g_image (gh_goal (handles s h)))"
  shows "\<exists>s'. execute env h s = Inr s'
           \<and> filter is_resolution (new_events s s') = [EvAbort h empty_result]
           \<and> last (trace s') = EvAbort h empty_result
           \<and> r_text empty_result = [] \<and> r_tokens empty_result = [] \<and> r_probs empty_result = []
           \<and> status_of s' h = ABORTED
           \<and> filter is_generation (new_events s s') = []
           \<and> feedback_events (new_events s s') = []"
  unfolding execute_abort [OF assms]
  by (simp add: empty_result_def status_of_def)

subsection \<open>The concrete run\<close>

lemma demo_accepted: "accepted (demo_node with_image) 1"
  by (simp add: demo_node_def goal_request_def handle_goal_def new_node_def handle_accepted_def
      accepted_def status_of_def)

lemma demo_goal_of_node: "gh_goal (handles (demo_node with_image) 1) = demo_goal with_image"
  by (simp add: demo_node_def goal_request_def handle_goal_def new_node_def handle_accepted_def)

lemma demo_encoded: "base64_encode [77, 97] False = Some ''TWE=''"
  by (simp add: base64_encode_def base64_loop.simps base64_group_def byte_at_def char_at_def
      base64_chars_def trailing_char_def)

lemma demo_image_load_fails:
  "image_load_fails (demo_env False cancel ok) (g_image (demo_goal True))"
  by (simp add: image_load_fails_def demo_env_def demo_encoded)

lemma demo_image_loads:
  "image_loads (demo_env True cancel ok) (g_image (demo_goal True))"
  by (simp add: image_loads_def demo_env_def demo_encoded)

text \<open>A run of the concrete goal while the process is shutting down is not resolved.\<close>

lemma shutdown_run_not_resolved:
  "map_sum id (\<lambda>s'. filter is_resolution (new_events (demo_node False) s'))
     (execute (demo_env True None False) 1 (demo_node False)) = Inr []"
proof -
  have h1: "accepted (demo_node False) 1" by (rule demo_accepted)
  have h2: "img_data (g_image (gh_goal (handles (demo_node False) 1))) = [] \<or>
       image_loads (demo_env True None False) (g_image (gh_goal (handles (demo_node False) 1)))"
    unfolding demo_goal_of_node by (simp add: demo_goal_def)
  have ok: "\<not> rclcpp_ok (demo_env True None False)" by (simp add: demo_env_def)
  show ?thesis
    unfolding execute_generate_shutdown [OF h1 h2 ok]
    by (simp add: generation_events_def)
qed

text \<open>The state after the interleaving: the member names goal 3 while goal 2 is executing.\<close>

lemma demo_run1:
  "execute_body (demo_env True None True) 1 (demo_node False) =
     Inr (True,
          (demo_node False)\<lparr>handles := (handles (demo_node False))
               (1 := (handles (demo_node False) 1)\<lparr>gh_status := SUCCEEDED\<rparr>),
            gpt_params := updated_params (demo_env True None True) (gh_goal (handles (demo_node False) 1))
                 (gpt_params (demo_node False)),
            engine_canceled := False,
            trace := trace (demo_node False) @
                     prelude_events (demo_env True None True) (gh_goal (handles (demo_node False) 1)) @
                     generation_events (demo_env True None True) 1 (g_prompt (gh_goal (handles (demo_node False) 1))) @
                     [EvSucceed 1
                        (spec_result (demo_env True None True)
                           (emitted_units (demo_env True None True)
                              (g_prompt (gh_goal (handles (demo_node False) 1)))))]\<rparr>)"
proof -
  have h1: "accepted (demo_node False) 1" by (rule demo_accepted)
  have h2: "img_data (g_image (gh_goal (handles (demo_node False) 1))) = [] \<or>
       image_loads (demo_env True None True) (g_image (gh_goal (handles (demo_node False) 1)))"
    unfolding demo_goal_of_node by (simp add: demo_goal_def)
  have ok: "rclcpp_ok (demo_env True None True)" by (simp add: demo_env_def)
  have ca: "\<not> cancel_arrives (demo_env True None True) p" for p
    by (simp add: cancel_arrives_def demo_env_def)
  have nc: "\<not> canceling_at_end (demo_env True None True) (demo_node False) 1"
    using h1
    by (simp add: canceling_at_end_def ca demo_node_def
        goal_request_def handle_goal_def new_node_def handle_accepted_def status_of_def)
  show ?thesis
    unfolding execute_body_generate [OF h1 h2 ok] using nc ca by simp
qed

lemma race_node_facts:
  "this_goal_handle (race_node w) = Some 3"
  "status_of (race_node w) 1 = SUCCEEDED"
  "status_of (race_node w) 2 = EXECUTING"
  "status_of (race_node w) 3 = EXECUTING"
  "gh_goal (handles (race_node w) 2) = demo_goal w"
  unfolding race_node_def demo_run1
  by (simp_all add: goal_request_def handle_goal_def handle_accepted_def clear_goal_handle_def
      status_of_def is_active_def demo_accepted [unfolded accepted_def])

lemma race_node_member: "accepted (race_node w) 3"
  by (simp add: accepted_def race_node_facts)

section \<open>Claims about \<open>base64_encode\<close>\<close>

text \<open>
  C3 (as amended). For every byte buffer shorter than \<open>2 ^ 32\<close> bytes, \<open>base64_encode\<close> in
  standard mode returns exactly the standard base64 text of the buffer: 3-byte groups cut
  into 6-bit slices over the standard alphabet, a trailing 1-byte group giving two symbols
  and \<open>==\<close>, a trailing 2-byte group three symbols and \<open>=\<close>. The output has
  \<open>4 * ceil (len / 3)\<close> characters, of which \<open>(3 - len mod 3) mod 3\<close> are padding, and the
  standard decoder gives the buffer back.
\<close>

theorem base64_encode_standard:
  assumes "length bs < 2 ^ 32"
  shows "\<exists>out. base64_encode bs False = Some out
           \<and> out = spec_base64 std_alphabet (CHR ''='') bs
           \<and> length out = (length bs + 2) div 3 * 4
           \<and> count_list out (CHR ''='') = (3 - length bs mod 3) mod 3
           \<and> std_base64_decode out = Some bs"
  using assms
  by (simp add: base64_encode_std length_spec_base64 count_pad_spec_base64 decode_spec_base64)

theorem base64_encode_standard_witness:
  "length [77, 97 :: byte] < 2 ^ 32
   \<and> base64_encode [77, 97] False = Some ''TWE=''
   \<and> std_base64_decode ''TWE='' = Some [77, 97]"
proof -
  have h: "length [77, 97 :: byte] < 2 ^ 32" by simp
  have e: "base64_encode [77, 97] False = Some ''TWE=''"
    by (simp add: base64_encode_def base64_loop.simps base64_group_def byte_at_def char_at_def
        base64_chars_def trailing_char_def)
  from base64_encode_standard [OF h] obtain out
    where o: "base64_encode [77, 97] False = Some out" "std_base64_decode out = Some [77, 97]"
    by blast
  from o(1) e have "out = ''TWE=''" by (metis option.inject)
  with o(2) have "std_base64_decode ''TWE='' = Some [77, 97]" by (simp only:)
  with h e show ?thesis by blast
qed

text \<open>
  C3, the claim as stated, fails for a buffer of \<open>2 ^ 32\<close> bytes: the 32-bit position
  counter wraps before it can reach the length, and the loop never exits.
\<close>

theorem base64_encode_huge_buffer_counterexample:
  "base64_encode (replicate (2 ^ 32) 0) False = None"
  by (rule base64_encode_diverges) simp

text \<open>
  C10. For every buffer shorter than \<open>2 ^ 32\<close> bytes \<open>base64_encode\<close> with \<open>url\<close> true
  returns the grouped encoding over the URL-safe alphabet (\<open>-\<close> and \<open>_\<close> as symbols 62
  and 63) with \<open>.\<close> as trailing character, never \<open>=\<close>; with \<open>url\<close> false it returns the
  one over the standard alphabet with \<open>=\<close>; for every buffer the first is the second with
  \<open>+\<close>, \<open>/\<close> and \<open>=\<close> replaced by \<open>-\<close>, \<open>_\<close> and \<open>.\<close>. A run of \<open>execute\<close> on a goal
  with an image passes to \<open>load_image\<close> the standard encoding of the image bytes,
  whichever goal the member names.
\<close>

theorem base64_url_mode_and_image_path:
  "(length bs < 2 ^ 32 \<longrightarrow>
      base64_encode bs True = Some (spec_base64 url_alphabet (CHR ''.'') bs)
      \<and> base64_encode bs False = Some (spec_base64 std_alphabet (CHR ''='') bs))
   \<and> base64_encode bs True = map_option (map url_char) (base64_encode bs False)
   \<and> url_alphabet = take 62 std_alphabet @ ''-_''
   \<and> CHR ''='' \<notin> set (spec_base64 url_alphabet (CHR ''.'') bs)
   \<and> base64_chars True ! 62 = CHR ''-'' \<and> base64_chars True ! 63 = CHR ''_''
   \<and> trailing_char True = CHR ''.''
   \<and> (accepted s m \<and> img_data (g_image (gh_goal (handles s h))) \<noteq> [] \<and>
       jpeg_bytes env (g_image (gh_goal (handles s h))) = Some buf \<and> length buf < 2 ^ 32 \<longrightarrow>
       (\<exists>s'. execute env h s = Inr s' \<and>
           filter is_load_image (new_events s s') =
             [EvLoadImage (spec_base64 std_alphabet (CHR ''='') buf)]))"
proof -
  have "base64_chars True ! 62 = CHR ''-''" "base64_chars True ! 63 = CHR ''_''"
    "trailing_char True = CHR ''.''"
    by (simp_all add: base64_chars_def trailing_char_def)
  moreover have "CHR ''='' \<notin> set (spec_base64 url_alphabet (CHR ''.'') bs)"
    by (rule spec_base64_no_char) (simp_all add: url_alphabet_no_eq [symmetric])
  ultimately show ?thesis
    using base64_encode_url [of bs] base64_encode_url_spec [of bs] base64_encode_std [of bs]
      url_alphabet_std execute_loads_std_image [of s m h env buf]
    by blast
qed

text \<open>
  C10, witness: the bytes \<open>FB FF\<close>, whose symbols are 62, 63 and 60, in both modes, and
  the image a run loads.
\<close>

theorem base64_url_mode_and_image_path_witness:
  "length [251, 255 :: byte] < 2 ^ 32
   \<and> base64_encode [251, 255] True = Some ''-_8.''
   \<and> base64_encode [251, 255] False = Some ''+/8=''
   \<and> accepted (demo_node True) 1 \<and> img_data (g_image (gh_goal (handles (demo_node True) 1))) \<noteq> []
   \<and> jpeg_bytes (demo_env True None True) (g_image (gh_goal (handles (demo_node True) 1))) = Some [77, 97]
   \<and> length [77, 97 :: byte] < 2 ^ 32
   \<and> (\<exists>s'. execute (demo_env True None True) 1 (demo_node True) = Inr s' \<and>
          filter is_load_image (new_events (demo_node True) s') = [EvLoadImage ''TWE=''])"
proof -
  let ?env = "demo_env True None True"
  have l: "length [251, 255 :: byte] < 2 ^ 32" by simp
  have h1: "accepted (demo_node True) 1" by (rule demo_accepted)
  have h2: "img_data (g_image (gh_goal (handles (demo_node True) 1))) \<noteq> []"
    unfolding demo_goal_of_node by (simp add: demo_goal_def)
  have h3: "jpeg_bytes ?env (g_image (gh_goal (handles (demo_node True) 1))) = Some [77, 97]"
    by (simp add: demo_env_def)
  have h4: "length [77, 97 :: byte] < 2 ^ 32" by simp
  have su: "spec_base64 url_alphabet (CHR ''.'') [251, 255] = ''-_8.''"
    by (simp add: url_alphabet_def)
  have ss: "spec_base64 std_alphabet (CHR ''='') [251, 255] = ''+/8=''"
    by (simp add: std_alphabet_def)
  have sm: "spec_base64 std_alphabet (CHR ''='') [77, 97] = ''TWE=''"
    by (simp add: std_alphabet_def)
  note t1 = base64_url_mode_and_image_path [of "[251, 255]"]
  note t2 = base64_url_mode_and_image_path [of _ "demo_node True" 1 1 ?env "[77, 97]"]
  from t1 l have u: "base64_encode [251, 255] True = Some ''-_8.''"
    and v: "base64_encode [251, 255] False = Some ''+/8=''"
    unfolding su ss by blast+
  from t2 h1 h2 h3 h4
  have "\<exists>s'. execute ?env 1 (demo_node True) = Inr s' \<and>
          filter is_load_image (new_events (demo_node True) s') = [EvLoadImage ''TWE='']"
    unfolding sm by blast
  with l u v h1 h2 h3 h4 show ?thesis by blast
qed

section \<open>Claims about admission\<close>

text \<open>
  C1. \<open>handle_goal\<close> rejects exactly when the member points to an active goal and changes
  no state (\<open>handle_goal_decision\<close>); yet two goals can be executing at once. The thread of
  goal 1 resolves it (line 151) and is about to clear the member (line 154); a request for
  goal 2 is accepted in between, since goal 1 is no longer active, and \<open>handle_accepted\<close>
  stores handle 2; the thread then clears the member; a request for goal 3 now finds the
  member null and is accepted while goal 2 is still executing.
\<close>

theorem two_goals_executing_after_interleaving:
  "(let s0 = new_node (demo_goal False) (0, 0);
        (r1, s1) = goal_request 1 (demo_goal False) s0
    in case execute_body (demo_env True None True) 1 s1 of
         Inl e \<Rightarrow> False
       | Inr (clear_pending, s2) \<Rightarrow>
           (let (r2, s3) = goal_request 2 (demo_goal False) s2;
                s4 = clear_goal_handle s3;
                (r3, s5) = goal_request 3 (demo_goal False) s4
            in r1 = ACCEPT_AND_EXECUTE \<and> clear_pending \<and> status_of s2 1 = SUCCEEDED
               \<and> r2 = ACCEPT_AND_EXECUTE \<and> r3 = ACCEPT_AND_EXECUTE
               \<and> status_of s5 2 = EXECUTING \<and> status_of s5 3 = EXECUTING))"
proof -
  have s1: "goal_request 1 (demo_goal False) (new_node (demo_goal False) (0, 0)) =
            (ACCEPT_AND_EXECUTE, demo_node False)"
    by (simp add: demo_node_def goal_request_def handle_goal_def new_node_def)
  have h1: "accepted (demo_node False) 1" by (rule demo_accepted)
  have h2: "img_data (g_image (gh_goal (handles (demo_node False) 1))) = [] \<or>
       image_loads (demo_env True None True) (g_image (gh_goal (handles (demo_node False) 1)))"
    unfolding demo_goal_of_node by (simp add: demo_goal_def)
  have ok: "rclcpp_ok (demo_env True None True)" by (simp add: demo_env_def)
  have nc: "\<not> canceling_at_end (demo_env True None True) (demo_node False) 1"
    using h1
    by (simp add: canceling_at_end_def cancel_arrives_def demo_env_def demo_node_def
        goal_request_def handle_goal_def new_node_def handle_accepted_def status_of_def)
  have tg: "this_goal_handle (demo_node False) = Some 1"
    using h1 by (simp add: accepted_def)
  show ?thesis
    unfolding s1 Let_def prod.case execute_body_generate [OF h1 h2 ok] sum.case
    using nc tg
    by (simp add: goal_request_def handle_goal_def handle_accepted_def clear_goal_handle_def
        status_of_def is_active_def)
qed

section \<open>Claims about the execution coordinator\<close>

text \<open>
  C2 (as amended). A run that reaches generation ends with the member \<open>goal_handle_\<close>
  cleared when the goal is resolved as succeeded or canceled; when the process is shutting
  down (\<open>rclcpp::ok()\<close> false) resolution is skipped and the member is left pointing to
  the goal, still active.
\<close>

theorem execute_clears_handle_after_resolution:
  assumes "accepted s h"
    and "img_data (g_image (gh_goal (handles s h))) = [] \<or>
         image_loads env (g_image (gh_goal (handles s h)))"
  shows "\<exists>s'. execute env h s = Inr s'
           \<and> this_goal_handle s' = (if rclcpp_ok env then None else Some h)
           \<and> status_of s' h =
               (if rclcpp_ok env
                then (if canceling_at_end env s h then CANCELED else SUCCEEDED)
                else (if canceling_at_end env s h then CANCELING else EXECUTING))"
proof (cases "rclcpp_ok env")
  case True
  show ?thesis
    unfolding execute_generate [OF assms True] using True by (simp add: status_of_def)
next
  case False
  show ?thesis
    unfolding execute_generate_shutdown [OF assms False]
    using False assms(1) by (simp add: status_of_def accepted_def)
qed

text \<open>C2, witness: a run without image and without cancel ends succeeded, the member null.\<close>

theorem execute_clears_handle_after_resolution_witness:
  "accepted (demo_node False) 1
   \<and> (img_data (g_image (gh_goal (handles (demo_node False) 1))) = [] \<or>
       image_loads (demo_env True None True) (g_image (gh_goal (handles (demo_node False) 1))))
   \<and> (\<exists>s'. execute (demo_env True None True) 1 (demo_node False) = Inr s'
           \<and> this_goal_handle s' = None \<and> status_of s' 1 = SUCCEEDED)"
proof -
  have h1: "accepted (demo_node False) 1" by (rule demo_accepted)
  have h2: "img_data (g_image (gh_goal (handles (demo_node False) 1))) = [] \<or>
       image_loads (demo_env True None True) (g_image (gh_goal (handles (demo_node False) 1)))"
    unfolding demo_goal_of_node by (simp add: demo_goal_def)
  have ok: "rclcpp_ok (demo_env True None True)" by (simp add: demo_env_def)
  have nc: "\<not> canceling_at_end (demo_env True None True) (demo_node False) 1"
    using h1
    by (simp add: canceling_at_end_def cancel_arrives_def demo_env_def demo_node_def
        goal_request_def handle_goal_def new_node_def handle_accepted_def status_of_def)
  from execute_clears_handle_after_resolution [OF h1 h2] ok nc h1 h2 show ?thesis by auto
qed

text \<open>
  C2, the claim as stated, fails on the abort path: \<open>execute\<close> returns at line 120 with the
  member still pointing to the aborted goal.
\<close>

theorem abort_leaves_handle_set_counterexample:
  "map_sum id this_goal_handle (execute (demo_env False None True) 1 (demo_node True)) = Inr (Some 1)"
proof -
  have h1: "accepted (demo_node True) 1" by (rule demo_accepted)
  have h2: "img_data (g_image (gh_goal (handles (demo_node True) 1))) \<noteq> []"
    unfolding demo_goal_of_node by (simp add: demo_goal_def)
  have h3: "image_load_fails (demo_env False None True) (g_image (gh_goal (handles (demo_node True) 1)))"
    unfolding demo_goal_of_node by (rule demo_image_load_fails)
  show ?thesis
    unfolding execute_abort [OF h1 h2 h3] using h1 by (simp add: accepted_def)
qed

text \<open>
  C4. The abort of line 119 goes through the member \<open>goal_handle_\<close>, not through the
  thread's own handle. In the state \<open>race_node\<close>, reached by three goal requests interleaved
  with the thread of goal 1, the member names goal 3 while the thread of goal 2 starts; goal 2 has an image and \<open>load_image\<close> fails on it. The
  run aborts goal 3 with the empty result and returns; goal 2, whose image failed, is not
  aborted and stays executing. (When the member names the thread's own goal, that goal is
  aborted and nothing is generated: \<open>abort_when_member_names_own_goal\<close>.)
\<close>

theorem abort_hits_other_goal_after_interleaving:
  "(case execute (demo_env False None True) 2 (race_node True) of
      Inl e \<Rightarrow> False
    | Inr s' \<Rightarrow>
        gh_goal (handles (race_node True) 2) = demo_goal True
        \<and> status_of (race_node True) 2 = EXECUTING
        \<and> filter is_resolution (new_events (race_node True) s') = [EvAbort 3 empty_result]
        \<and> status_of s' 2 = EXECUTING
        \<and> status_of s' 3 = ABORTED)"
proof -
  have g: "gh_goal (handles (race_node True) 2) = demo_goal True" by (rule race_node_facts)
  have img: "img_data (g_image (gh_goal (handles (race_node True) 2))) \<noteq> []"
    unfolding g by (simp add: demo_goal_def)
  have fails: "image_load_fails (demo_env False None True)
                 (g_image (gh_goal (handles (race_node True) 2)))"
    unfolding g by (rule demo_image_load_fails)
  have st: "gh_status (handles (race_node True) 2) = EXECUTING"
    using race_node_facts(3) [of True] by (simp add: status_of_def)
  show ?thesis
    unfolding execute_abort_member [OF race_node_member img fails] sum.case
    using g st by (simp add: race_node_facts status_of_def)
qed

text \<open>
  C5. When the image payload is empty, the run calls none of \<open>toCvCopy\<close>, \<open>imencode\<close>,
  \<open>base64_encode\<close> and \<open>load_image\<close>; after the optional reset it calls \<open>free_image\<close> and
  then \<open>generate_response\<close>.
\<close>

theorem empty_image_frees_and_generates:
  assumes "accepted s h"
    and "img_data (g_image (gh_goal (handles s h))) = []"
  shows "\<exists>s' rest. execute env h s = Inr s'
           \<and> new_events s s' =
               (if g_reset (gh_goal (handles s h)) then [EvReset] else []) @
               [EvFreeImage, EvGenerateResponse (g_prompt (gh_goal (handles s h))) True] @ rest
           \<and> filter is_codec_event (new_events s s') = []
           \<and> filter is_load_image (new_events s s') = []"
proof (cases "rclcpp_ok env")
  case True
  show ?thesis
    unfolding execute_generate [OF assms(1) disjI1 [OF assms(2)] True]
    using assms(2)
    by (simp add: prelude_events_def image_events_def generation_events_def)
next
  case False
  show ?thesis
    unfolding execute_generate_shutdown [OF assms(1) disjI1 [OF assms(2)] False]
    using assms(2)
    by (simp add: prelude_events_def image_events_def generation_events_def)
qed

text \<open>C5, witness: a goal without image.\<close>

theorem empty_image_frees_and_generates_witness:
  "accepted (demo_node False) 1
   \<and> img_data (g_image (gh_goal (handles (demo_node False) 1))) = []
   \<and> (\<exists>s' rest. execute (demo_env True None True) 1 (demo_node False) = Inr s'
           \<and> new_events (demo_node False) s' =
                 [EvReset, EvFreeImage, EvGenerateResponse ''describe'' True] @ rest
           \<and> filter is_codec_event (new_events (demo_node False) s') = [])"
proof -
  have h1: "accepted (demo_node False) 1" by (rule demo_accepted)
  have h2: "img_data (g_image (gh_goal (handles (demo_node False) 1))) = []"
    unfolding demo_goal_of_node by (simp add: demo_goal_def)
  from empty_image_frees_and_generates [OF h1 h2, of "demo_env True None True"] obtain s' rest
    where e: "execute (demo_env True None True) 1 (demo_node False) = Inr s'"
      and n: "new_events (demo_node False) s' =
               (if g_reset (gh_goal (handles (demo_node False) 1)) then [EvReset] else []) @
               [EvFreeImage, EvGenerateResponse (g_prompt (gh_goal (handles (demo_node False) 1))) True] @ rest"
      and c: "filter is_codec_event (new_events (demo_node False) s') = []"
    by blast
  from n have "new_events (demo_node False) s' =
                 [EvReset, EvFreeImage, EvGenerateResponse ''describe'' True] @ rest"
    unfolding demo_goal_of_node by (simp add: demo_goal_def)
  with h1 h2 e c show ?thesis by blast
qed




text \<open>
  C9. When a run aborts because \<open>load_image\<close> fails, the state it leaves behind already
  holds the effects of the steps before the image step: the engine was reset if the goal
  asked for it, and \<open>gpt_params\<close> holds the parameters updated with the vocabulary size
  and end-of-sequence token just queried. Nothing undoes them.
\<close>

theorem abort_keeps_reset_and_sampling_params:
  assumes "accepted s h"
    and "img_data (g_image (gh_goal (handles s h))) \<noteq> []"
    and "image_load_fails env (g_image (gh_goal (handles s h)))"
  shows "\<exists>s'. execute env h s = Inr s'
           \<and> status_of s' h = ABORTED
           \<and> gpt_params s' =
               update_sampling_params env (g_sampling_config (gh_goal (handles s h)))
                 (get_n_vocab env) (get_token_eos env) (gpt_params s)
           \<and> new_events s s' =
               (if g_reset (gh_goal (handles s h)) then [EvReset] else []) @
               image_events env (g_image (gh_goal (handles s h))) @ [EvAbort h empty_result]"
  unfolding execute_abort [OF assms]
  by (simp add: status_of_def updated_params_def prelude_events_def)

text \<open>C9, witness: the reset and the parameters \<open>(32000, 2)\<close> are there after the abort.\<close>

theorem abort_keeps_reset_and_sampling_params_witness:
  "accepted (demo_node True) 1
   \<and> img_data (g_image (gh_goal (handles (demo_node True) 1))) \<noteq> []
   \<and> image_load_fails (demo_env False None True) (g_image (gh_goal (handles (demo_node True) 1)))
   \<and> (\<exists>s'. execute (demo_env False None True) 1 (demo_node True) = Inr s'
           \<and> gpt_params s' = (32000, 2)
           \<and> new_events (demo_node True) s' =
               [EvReset, EvToCvCopy ''rgb8'', EvImencode, EvBase64Encode, EvLoadImage ''TWE='',
                EvAbort 1 empty_result])"
proof -
  have h1: "accepted (demo_node True) 1" by (rule demo_accepted)
  have h2: "img_data (g_image (gh_goal (handles (demo_node True) 1))) \<noteq> []"
    unfolding demo_goal_of_node by (simp add: demo_goal_def)
  have h3: "image_load_fails (demo_env False None True) (g_image (gh_goal (handles (demo_node True) 1)))"
    unfolding demo_goal_of_node by (rule demo_image_load_fails)
  from abort_keeps_reset_and_sampling_params [OF h1 h2 h3] obtain s'
    where e: "execute (demo_env False None True) 1 (demo_node True) = Inr s'"
      and p: "gpt_params s' =
               update_sampling_params (demo_env False None True)
                 (g_sampling_config (gh_goal (handles (demo_node True) 1)))
                 (get_n_vocab (demo_env False None True)) (get_token_eos (demo_env False None True))
                 (gpt_params (demo_node True))"
      and n: "new_events (demo_node True) s' =
               (if g_reset (gh_goal (handles (demo_node True) 1)) then [EvReset] else []) @
               image_events (demo_env False None True) (g_image (gh_goal (handles (demo_node True) 1))) @
               [EvAbort 1 empty_result]"
    by blast
  from p have p': "gpt_params s' = (32000, 2)" by (simp add: demo_env_def)
  from n have n': "new_events (demo_node True) s' =
               [EvReset, EvToCvCopy ''rgb8'', EvImencode, EvBase64Encode, EvLoadImage ''TWE='',
                EvAbort 1 empty_result]"
    unfolding demo_goal_of_node
    by (simp add: demo_goal_def image_events_def demo_env_def demo_encoded)
  from h1 h2 h3 e p' n' show ?thesis by blast
qed

section \<open>Claims about cancel requests and streaming\<close>

text \<open>
  C7. For every cancel request, whatever the state of the node, \<open>handle_cancel\<close> calls the
  engine's \<open>cancel\<close>, answers \<open>ACCEPT\<close>, and leaves the member \<open>goal_handle_\<close>, every goal
  handle and the sampling parameters as they were.
\<close>

theorem handle_cancel_forwards_and_accepts:
  "fst (handle_cancel goal_handle s) = CANCEL_ACCEPT
   \<and> trace (snd (handle_cancel goal_handle s)) = trace s @ [EvCancel]
   \<and> engine_canceled (snd (handle_cancel goal_handle s))
   \<and> this_goal_handle (snd (handle_cancel goal_handle s)) = this_goal_handle s
   \<and> handles (snd (handle_cancel goal_handle s)) = handles s
   \<and> gpt_params (snd (handle_cancel goal_handle s)) = gpt_params s"
  by (simp add: handle_cancel_def log_def)



end
